theory Spec2Isabelle
  imports Complex_Main
begin

section \<open>JavaScript numbers\<close>

text \<open>
  The widget (the Svelte component \<open>App.svelte\<close>, mounted by \<open>main.js\<close>) computes with
  JavaScript Numbers, the doubles of IEEE 754. A finite Number is the real it denotes, and
  the three special values that the operators can produce (division by zero, overflow,
  operations on them) are values of their own. The operators \<open>+\<close>, \<open>-\<close>, \<open>*\<close> and \<open>/\<close> of
  this section give the exact result of an operation, before it is rounded; the next
  section rounds it to a double. The sign of zero is not part of the model: it shows only
  in a division by zero. No operator raises an exception.
\<close>

datatype num = Fin real | PInf | NInf | NaN

fun sign_inf :: "real \<Rightarrow> num" where
  "sign_inf s = (if s = 0 then NaN else if 0 < s then PInf else NInf)"

instantiation num :: "{plus, minus, uminus, times, inverse, ord}"
begin

fun uminus_num :: "num \<Rightarrow> num" where
  "uminus_num (Fin a) = Fin (- a)"
| "uminus_num PInf = NInf"
| "uminus_num NInf = PInf"
| "uminus_num NaN = NaN"

fun plus_num :: "num \<Rightarrow> num \<Rightarrow> num" where
  "plus_num (Fin a) (Fin b) = Fin (a + b)"
| "plus_num (Fin a) PInf = PInf"
| "plus_num (Fin a) NInf = NInf"
| "plus_num PInf (Fin b) = PInf"
| "plus_num PInf PInf = PInf"
| "plus_num PInf NInf = NaN"
| "plus_num NInf (Fin b) = NInf"
| "plus_num NInf PInf = NaN"
| "plus_num NInf NInf = NInf"
| "plus_num NaN y = NaN"
| "plus_num (Fin a) NaN = NaN"
| "plus_num PInf NaN = NaN"
| "plus_num NInf NaN = NaN"

definition minus_num :: "num \<Rightarrow> num \<Rightarrow> num" where
  "minus_num x y = x + (- y)"

fun times_num :: "num \<Rightarrow> num \<Rightarrow> num" where
  "times_num (Fin a) (Fin b) = Fin (a * b)"
| "times_num (Fin a) PInf = sign_inf a"
| "times_num (Fin a) NInf = sign_inf (- a)"
| "times_num PInf (Fin b) = sign_inf b"
| "times_num NInf (Fin b) = sign_inf (- b)"
| "times_num PInf PInf = PInf"
| "times_num PInf NInf = NInf"
| "times_num NInf PInf = NInf"
| "times_num NInf NInf = PInf"
| "times_num NaN y = NaN"
| "times_num (Fin a) NaN = NaN"
| "times_num PInf NaN = NaN"
| "times_num NInf NaN = NaN"

text \<open>Division by zero does not raise: it yields an infinity, or NaN for 0 / 0.\<close>

fun divide_num :: "num \<Rightarrow> num \<Rightarrow> num" where
  "divide_num (Fin a) (Fin b) = (if b = 0 then sign_inf a else Fin (a / b))"
| "divide_num (Fin a) PInf = Fin 0"
| "divide_num (Fin a) NInf = Fin 0"
| "divide_num PInf (Fin b) = (if 0 \<le> b then PInf else NInf)"
| "divide_num NInf (Fin b) = (if 0 \<le> b then NInf else PInf)"
| "divide_num PInf PInf = NaN"
| "divide_num PInf NInf = NaN"
| "divide_num NInf PInf = NaN"
| "divide_num NInf NInf = NaN"
| "divide_num NaN y = NaN"
| "divide_num (Fin a) NaN = NaN"
| "divide_num PInf NaN = NaN"
| "divide_num NInf NaN = NaN"

definition inverse_num :: "num \<Rightarrow> num" where
  "inverse_num x = divide (Fin 1) x"

text \<open>Every comparison with NaN is false.\<close>

fun less_eq_num :: "num \<Rightarrow> num \<Rightarrow> bool" where
  "less_eq_num (Fin a) (Fin b) = (a \<le> b)"
| "less_eq_num (Fin a) PInf = True"
| "less_eq_num (Fin a) NInf = False"
| "less_eq_num PInf (Fin b) = False"
| "less_eq_num PInf PInf = True"
| "less_eq_num PInf NInf = False"
| "less_eq_num NInf (Fin b) = True"
| "less_eq_num NInf PInf = True"
| "less_eq_num NInf NInf = True"
| "less_eq_num NaN y = False"
| "less_eq_num (Fin a) NaN = False"
| "less_eq_num PInf NaN = False"
| "less_eq_num NInf NaN = False"

fun less_num :: "num \<Rightarrow> num \<Rightarrow> bool" where
  "less_num (Fin a) (Fin b) = (a < b)"
| "less_num (Fin a) PInf = True"
| "less_num (Fin a) NInf = False"
| "less_num PInf (Fin b) = False"
| "less_num PInf PInf = False"
| "less_num PInf NInf = False"
| "less_num NInf (Fin b) = True"
| "less_num NInf PInf = True"
| "less_num NInf NInf = False"
| "less_num NaN y = False"
| "less_num (Fin a) NaN = False"
| "less_num PInf NaN = False"
| "less_num NInf NaN = False"

instance ..

end


fun Math_abs :: "num \<Rightarrow> num" where
  "Math_abs (Fin a) = Fin \<bar>a\<bar>"
| "Math_abs PInf = PInf"
| "Math_abs NInf = PInf"
| "Math_abs NaN = NaN"

text \<open>\<open>Math.min\<close> is NaN as soon as one argument is.\<close>

fun Math_min :: "num \<Rightarrow> num \<Rightarrow> num" where
  "Math_min NaN y = NaN"
| "Math_min (Fin a) NaN = NaN"
| "Math_min PInf NaN = NaN"
| "Math_min NInf NaN = NaN"
| "Math_min (Fin a) (Fin b) = Fin (min a b)"
| "Math_min (Fin a) PInf = Fin a"
| "Math_min (Fin a) NInf = NInf"
| "Math_min PInf (Fin b) = Fin b"
| "Math_min PInf PInf = PInf"
| "Math_min PInf NInf = NInf"
| "Math_min NInf (Fin b) = NInf"
| "Math_min NInf PInf = NInf"
| "Math_min NInf NInf = NInf"

text \<open>\<open>Math.round\<close> rounds to the nearest integer, a tie towards plus infinity.\<close>

fun Math_round :: "num \<Rightarrow> num" where
  "Math_round (Fin a) = Fin (of_int \<lfloor>a + 1 / 2\<rfloor>)"
| "Math_round PInf = PInf"
| "Math_round NInf = NInf"
| "Math_round NaN = NaN"

section \<open>Double-precision arithmetic\<close>

text \<open>
  The platform rounds the exact result of every operation to the nearest double, a tie to
  the double with an even significand; a result that is rounded to a magnitude of
  \<open>2^1024\<close> or more becomes an infinity, and below \<open>2^-1022\<close> the spacing of the doubles
  stays \<open>2^-1074\<close>. \<open>binexp x\<close> is the binary exponent of \<open>x\<close> (that of the smallest
  normal double for smaller numbers), \<open>quantum x\<close> the spacing of the doubles around \<open>x\<close>
  and \<open>nearest x\<close> the multiple of the spacing that \<open>x\<close> is rounded to. \<open>fadd\<close>, \<open>fsub\<close>,
  \<open>fmul\<close> and \<open>fdiv\<close> are the operators as the platform computes them.

  A function with a name ending in \<open>_dbl\<close> is the function of the script with these
  operators; the function without the ending is the same expression before rounding. The
  statements about the secant error, the coordinate mapper and the axis ticks are about the
  rounded functions.
\<close>

definition round_even :: "real \<Rightarrow> int" where
  "round_even y =
     (let n = \<lfloor>y\<rfloor>; d = y - of_int n in
      if d < 1 / 2 then n else if 1 / 2 < d then n + 1 else if even n then n else n + 1)"

primrec expo_aux :: "nat \<Rightarrow> real \<Rightarrow> int" where
  "expo_aux 0 x = 0"
| "expo_aux (Suc n) x =
     (if 2 \<le> x then expo_aux n (x / 2) + 1 else if x < 1 then expo_aux n (x * 2) - 1 else 0)"

definition expo :: "real \<Rightarrow> int" where
  "expo a = expo_aux 1100 a"

definition binexp :: "real \<Rightarrow> int" where
  "binexp x = (if \<bar>x\<bar> < 1 / 2 ^ 1022 then - 1022 else expo \<bar>x\<bar>)"

definition quantum :: "real \<Rightarrow> real" where
  "quantum x = 2 powi (binexp x - 52)"

definition nearest :: "real \<Rightarrow> real" where
  "nearest x = of_int (round_even (x / quantum x)) * quantum x"

definition rnd_real :: "real \<Rightarrow> num" where
  "rnd_real x =
     (if 2 ^ 1024 \<le> \<bar>x\<bar> then sign_inf x
      else if 2 ^ 1024 \<le> \<bar>nearest x\<bar> then sign_inf x
      else Fin (nearest x))"

fun rnd :: "num \<Rightarrow> num" where
  "rnd (Fin x) = rnd_real x"
| "rnd PInf = PInf"
| "rnd NInf = NInf"
| "rnd NaN = NaN"

text \<open>The four operators, and a decimal literal of the source text.\<close>

definition fadd :: "num \<Rightarrow> num \<Rightarrow> num" where "fadd a b = rnd (a + b)"
definition fsub :: "num \<Rightarrow> num \<Rightarrow> num" where "fsub a b = rnd (a - b)"
definition fmul :: "num \<Rightarrow> num \<Rightarrow> num" where "fmul a b = rnd (a * b)"
definition fdiv :: "num \<Rightarrow> num \<Rightarrow> num" where "fdiv a b = rnd (a / b)"

definition lit :: "real \<Rightarrow> num" where "lit x = rnd (Fin x)"

text \<open>\<open>near tol a r\<close>: the Number \<open>a\<close> is finite and within \<open>tol\<close> of the real \<open>r\<close>.\<close>

fun near :: "real \<Rightarrow> num \<Rightarrow> real \<Rightarrow> bool" where
  "near tol (Fin a) r = (\<bar>a - r\<bar> \<le> tol)"
| "near tol PInf r = False"
| "near tol NInf r = False"
| "near tol NaN r = False"

section \<open>Numbers and strings\<close>

text \<open>
  Two conversions of the platform are outside exact arithmetic and are parameters of the
  model: the decimal text of a Number that is not an integer below \<open>10^21\<close> (the
  shortest digits that read back as the same double), and the reading of numeric strings
  other than plain decimal literals.
\<close>

record platform =
  frac_str :: "real \<Rightarrow> string"
  other_num :: "string \<Rightarrow> num"

definition digit_chars :: string where
  "digit_chars = ''0123456789''"

fun digits :: "nat \<Rightarrow> string" where
  "digits n = (if n < 10 then [digit_chars ! n] else digits (n div 10) @ [digit_chars ! (n mod 10)])"

declare digits.simps [simp del]

text \<open>\<open>Number::toString\<close>, as template literals apply it to a Number.\<close>

fun Number_toString :: "platform \<Rightarrow> num \<Rightarrow> string" where
  "Number_toString pf NaN = ''NaN''"
| "Number_toString pf PInf = ''Infinity''"
| "Number_toString pf NInf = ''-Infinity''"
| "Number_toString pf (Fin a) =
     (if a = of_int \<lfloor>a\<rfloor> \<and> \<bar>a\<bar> < 10 ^ 21
      then (if a < 0 then ''-'' else '''') @ digits (nat \<bar>\<lfloor>a\<rfloor>\<bar>)
      else frac_str pf a)"

text \<open>
  \<open>Number.prototype.toFixed\<close> with \<open>fd\<close> fraction digits (the widget passes 2, 4 and 6;
  beyond 100 the platform raises a RangeError, which no call of the widget reaches).
  \<open>fixed_digits fd n\<close> writes the integer \<open>n\<close> with a point before its last \<open>fd\<close>
  digits, padded with zeros on the left.
\<close>

definition fixed_digits :: "nat \<Rightarrow> nat \<Rightarrow> string" where
  "fixed_digits fd n =
     (let m = digits n in
      if fd = 0 then m
      else
        let m' = replicate (fd + 1 - length m) (CHR ''0'') @ m; k = length m'
        in take (k - fd) m' @ ''.'' @ drop (k - fd) m')"

fun toFixed :: "platform \<Rightarrow> nat \<Rightarrow> num \<Rightarrow> string" where
  "toFixed pf fd (Fin a) =
     (let s = (if a < 0 then ''-'' else ''''); x = \<bar>a\<bar> in
      if 10 ^ 21 \<le> x then s @ Number_toString pf (Fin x)
      else s @ fixed_digits fd (nat \<lfloor>x * 10 ^ fd + 1 / 2\<rfloor>))"
| "toFixed pf fd PInf = Number_toString pf PInf"
| "toFixed pf fd NInf = Number_toString pf NInf"
| "toFixed pf fd NaN = Number_toString pf NaN"






fun join :: "string \<Rightarrow> string list \<Rightarrow> string" where
  "join sep [] = []"
| "join sep [x] = x"
| "join sep (x # y # ys) = x @ sep @ join sep (y # ys)"

section \<open>The mathematics: function and derivative\<close>

text \<open>\<open>f\<close> and \<open>df\<close> (script lines 27 and 30).\<close>

definition f :: "num \<Rightarrow> num" where
  "f x = x * x - Fin 2 * x + Fin 3"

definition df :: "num \<Rightarrow> num" where
  "df x = Fin 2 * x - Fin 2"

text \<open>The same two functions as the platform computes them, every operator rounding.\<close>

definition f_dbl :: "num \<Rightarrow> num" where
  "f_dbl x = fadd (fsub (fmul x x) (fmul (Fin 2) x)) (Fin 3)"

definition df_dbl :: "num \<Rightarrow> num" where
  "df_dbl x = fsub (fmul (Fin 2) x) (Fin 2)"

section \<open>Viewport and coordinate transformation\<close>

text \<open>
  The viewbox, the padding object \<open>PAD\<close>, the visible mathematical range and the two
  mappers (script lines 41 to 62).
\<close>

definition VW :: num where "VW = Fin 600"
definition VH :: num where "VH = Fin 400"

record padding =
  pad_top :: num
  pad_right :: num
  pad_bottom :: num
  pad_left :: num

definition PAD :: padding where
  "PAD = \<lparr> pad_top = Fin 20, pad_right = Fin 20, pad_bottom = Fin 50, pad_left = Fin 55 \<rparr>"

definition xMin :: num where "xMin = Fin 0"
definition xMax :: num where "xMax = Fin 4"
definition yMin :: num where "yMin = Fin 0"
definition yMax :: num where "yMax = Fin 9"

definition plotW :: num where
  "plotW = VW - pad_left PAD - pad_right PAD"

definition plotH :: num where
  "plotH = VH - pad_top PAD - pad_bottom PAD"

definition toSvgX :: "num \<Rightarrow> num" where
  "toSvgX x = pad_left PAD + (x - xMin) / (xMax - xMin) * plotW"

definition toSvgY :: "num \<Rightarrow> num" where
  "toSvgY y = pad_top PAD + (Fin 1 - (y - yMin) / (yMax - yMin)) * plotH"

text \<open>The same constants and functions in double arithmetic.\<close>

definition plotW_dbl :: num where
  "plotW_dbl = fsub (fsub VW (pad_left PAD)) (pad_right PAD)"

definition plotH_dbl :: num where
  "plotH_dbl = fsub (fsub VH (pad_top PAD)) (pad_bottom PAD)"

definition toSvgX_dbl :: "num \<Rightarrow> num" where
  "toSvgX_dbl x = fadd (pad_left PAD) (fmul (fdiv (fsub x xMin) (fsub xMax xMin)) plotW_dbl)"

definition toSvgY_dbl :: "num \<Rightarrow> num" where
  "toSvgY_dbl y =
     fadd (pad_top PAD) (fmul (fsub (Fin 1) (fdiv (fsub y yMin) (fsub yMax yMin))) plotH_dbl)"

section \<open>Polyline points\<close>

text \<open>
  \<open>makeLine\<close> (lines 67 to 69) maps every \<open>x\<close> to the text \<open>px,py\<close> of its drawing
  coordinates and joins the pieces with a blank; \<open>xs\<close> (line 72) is
  \<open>Array.from({ length: 300 }, ...)\<close>.
\<close>

definition makeLine :: "platform \<Rightarrow> num list \<Rightarrow> (num \<Rightarrow> num) \<Rightarrow> string" where
  "makeLine pf xArr fn =
     join '' '' (map (\<lambda>x. Number_toString pf (toSvgX x) @ '','' @ Number_toString pf (toSvgY (fn x))) xArr)"

definition xs :: "num list" where
  "xs = map (\<lambda>i. xMin + Fin (real i) * (xMax - xMin) / Fin 299) [0..<300]"

section \<open>Preset buttons\<close>

text \<open>The list of the \<open>{#each}\<close> block of the template (line 311).\<close>

definition presets :: "num list" where
  "presets = [Fin 2.0, Fin 1.0, Fin 0.5, Fin 0.1, Fin 0.01]"

text \<open>The \<open>class:active\<close> expression of a preset button.\<close>

definition active :: "num \<Rightarrow> num \<Rightarrow> bool" where
  "active deltaX preset = (Math_abs (deltaX - preset) < Fin 0.005)"

section \<open>Reactive declarations\<close>

text \<open>
  Each \<open>$:\<close> declaration of the component (lines 81 to 104, 125 and 126) is a function
  of the variables it mentions; \<open>name_rhs\<close> is the right-hand side of the declaration of
  \<open>name\<close>. \<open>x\<^sub>0\<close> stands for the variable \<open>x0\<close> and \<open>\<Delta>x\<close> for \<open>deltaX\<close>.
\<close>

definition slope_sek_rhs :: "num \<Rightarrow> num \<Rightarrow> num" where
  "slope_sek_rhs x\<^sub>0 \<Delta>x = (f (x\<^sub>0 + \<Delta>x) - f x\<^sub>0) / \<Delta>x"

definition slope_tan_rhs :: "num \<Rightarrow> num" where
  "slope_tan_rhs x\<^sub>0 = df x\<^sub>0"

definition slopeDisplay_rhs :: "platform \<Rightarrow> num \<Rightarrow> string" where
  "slopeDisplay_rhs pf sek = toFixed pf 4 sek"

definition errorDisplay_rhs :: "platform \<Rightarrow> num \<Rightarrow> num \<Rightarrow> string" where
  "errorDisplay_rhs pf sek tang = toFixed pf 4 (Math_abs (sek - tang))"

definition funcPoints_rhs :: "platform \<Rightarrow> string" where
  "funcPoints_rhs pf = makeLine pf xs f"

definition sekantePoints_rhs :: "platform \<Rightarrow> num \<Rightarrow> num \<Rightarrow> string" where
  "sekantePoints_rhs pf x\<^sub>0 sek = makeLine pf xs (\<lambda>x. f x\<^sub>0 + sek * (x - x\<^sub>0))"

definition tangentePoints_rhs :: "platform \<Rightarrow> num \<Rightarrow> num \<Rightarrow> string" where
  "tangentePoints_rhs pf x\<^sub>0 tang = makeLine pf xs (\<lambda>x. f x\<^sub>0 + tang * (x - x\<^sub>0))"

record point =
  pt_x :: num
  pt_y :: num

definition px0_rhs :: "num \<Rightarrow> point" where
  "px0_rhs x\<^sub>0 = \<lparr> pt_x = toSvgX x\<^sub>0, pt_y = toSvgY (f x\<^sub>0) \<rparr>"

definition px1_rhs :: "num \<Rightarrow> num \<Rightarrow> point" where
  "px1_rhs x\<^sub>0 \<Delta>x = \<lparr> pt_x = toSvgX (x\<^sub>0 + \<Delta>x), pt_y = toSvgY (f (x\<^sub>0 + \<Delta>x)) \<rparr>"

definition errorRatio_rhs :: "num \<Rightarrow> num \<Rightarrow> num" where
  "errorRatio_rhs sek tang = Math_min (Fin 1) (Math_abs (sek - tang) / Fin 3)"

text \<open>From green \<open>#27ae60\<close> at \<open>t = 0\<close> to red \<open>#c0392b\<close> at \<open>t = 1\<close>.\<close>

definition interpolateColor :: "platform \<Rightarrow> num \<Rightarrow> string" where
  "interpolateColor pf t =
     (let r = Math_round (Fin 0x27 + t * (Fin 0xc0 - Fin 0x27));
          g = Math_round (Fin 0xae + t * (Fin 0x39 - Fin 0xae));
          b = Math_round (Fin 0x60 + t * (Fin 0x2b - Fin 0x60))
      in ''rgb('' @ Number_toString pf r @ '','' @ Number_toString pf g @ '','' @
         Number_toString pf b @ '')'')"

definition errorColor_rhs :: "platform \<Rightarrow> num \<Rightarrow> string" where
  "errorColor_rhs pf ratio = interpolateColor pf ratio"

text \<open>
  The secant slope and the error display in double arithmetic (lines 81 and 90);
  \<open>slopeDisplay\<close> involves no arithmetic.
\<close>

definition slope_sek_dbl :: "num \<Rightarrow> num \<Rightarrow> num" where
  "slope_sek_dbl x\<^sub>0 \<Delta>x = fdiv (fsub (f_dbl (fadd x\<^sub>0 \<Delta>x)) (f_dbl x\<^sub>0)) \<Delta>x"

definition errorDisplay_dbl :: "platform \<Rightarrow> num \<Rightarrow> num \<Rightarrow> string" where
  "errorDisplay_dbl pf sek tang = toFixed pf 4 (Math_abs (fsub sek tang))"

section \<open>Axis ticks\<close>







section \<open>Slider settings\<close>

definition DX_MIN :: num where "DX_MIN = Fin 0.01"
definition DX_MAX :: num where "DX_MAX = Fin 2.0"
definition DX_STEP :: num where "DX_STEP = Fin 0.01"

section \<open>Component state and reactivity\<close>

text \<open>
  The variables of the component instance. \<open>deltaX\<close> and \<open>x0\<close> are assigned by the
  program, every other one by its reactive declaration.
\<close>

datatype var =
  DeltaX | X0 | Slope_sek | Slope_tan | SlopeDisplay | ErrorDisplay | FuncPoints
  | SekantePoints | TangentePoints | Px0 | Px1 | ErrorRatio | ErrorColor

record state =
  deltaX :: num
  x0 :: num
  slope_sek :: num
  slope_tan :: num
  slopeDisplay :: string
  errorDisplay :: string
  funcPoints :: string
  sekantePoints :: string
  tangentePoints :: string
  px0 :: point
  px1 :: point
  errorRatio :: num
  errorColor :: string

text \<open>
  When the component is created, every declaration runs once, in the order of the source,
  on the given \<open>deltaX\<close> and \<open>x0\<close>.
\<close>

definition run_all :: "platform \<Rightarrow> num \<Rightarrow> num \<Rightarrow> state" where
  "run_all pf \<Delta>x x\<^sub>0 =
     (let sek = slope_sek_rhs x\<^sub>0 \<Delta>x;
          tang = slope_tan_rhs x\<^sub>0;
          ratio = errorRatio_rhs sek tang
      in \<lparr> deltaX = \<Delta>x, x0 = x\<^sub>0,
           slope_sek = sek,
           slope_tan = tang,
           slopeDisplay = slopeDisplay_rhs pf sek,
           errorDisplay = errorDisplay_rhs pf sek tang,
           funcPoints = funcPoints_rhs pf,
           sekantePoints = sekantePoints_rhs pf x\<^sub>0 sek,
           tangentePoints = tangentePoints_rhs pf x\<^sub>0 tang,
           px0 = px0_rhs x\<^sub>0,
           px1 = px1_rhs x\<^sub>0 \<Delta>x,
           errorRatio = ratio,
           errorColor = errorColor_rhs pf ratio \<rparr>)"

definition init :: "platform \<Rightarrow> state" where
  "init pf = run_all pf (Fin 1.5) (Fin 2.0)"

text \<open>
  Afterwards a declaration runs again when one of the variables it mentions has changed
  (lines 75 to 78 of the source say so); the changed variables are the dirty set. The
  target of a declaration that has run becomes dirty in turn when its new value differs
  from the old one; an object literal always counts as changed. \<open>mentions\<close> lists, for
  every variable, the variables its declaration reads.
\<close>

fun mentions :: "var \<Rightarrow> var list" where
  "mentions DeltaX = []"
| "mentions X0 = []"
| "mentions Slope_sek = [X0, DeltaX]"
| "mentions Slope_tan = [X0]"
| "mentions SlopeDisplay = [Slope_sek]"
| "mentions ErrorDisplay = [Slope_sek, Slope_tan]"
| "mentions FuncPoints = []"
| "mentions SekantePoints = [X0, Slope_sek]"
| "mentions TangentePoints = [X0, Slope_tan]"
| "mentions Px0 = [X0]"
| "mentions Px1 = [X0, DeltaX]"
| "mentions ErrorRatio = [Slope_sek, Slope_tan]"
| "mentions ErrorColor = [ErrorRatio]"

definition reactive ::
  "var \<Rightarrow> (state \<Rightarrow> 'a) \<Rightarrow> ('a \<Rightarrow> state \<Rightarrow> state) \<Rightarrow> ('a \<Rightarrow> 'a \<Rightarrow> bool) \<Rightarrow> (state \<Rightarrow> 'a)
     \<Rightarrow> var set \<times> state \<Rightarrow> var set \<times> state" where
  "reactive tgt get put changed rhs ds =
     (let dirty = fst ds; s = snd ds in
      if set (mentions tgt) \<inter> dirty = {} then (dirty, s)
      else
        let v = rhs s
        in (if changed (get s) v then insert tgt dirty else dirty, put v s))"

definition declarations :: "platform \<Rightarrow> (var set \<times> state \<Rightarrow> var set \<times> state) list" where
  "declarations pf =
     [reactive Slope_sek slope_sek (\<lambda>v s. s\<lparr>slope_sek := v\<rparr>) (\<noteq>)
        (\<lambda>s. slope_sek_rhs (x0 s) (deltaX s)),
      reactive Slope_tan slope_tan (\<lambda>v s. s\<lparr>slope_tan := v\<rparr>) (\<noteq>)
        (\<lambda>s. slope_tan_rhs (x0 s)),
      reactive SlopeDisplay slopeDisplay (\<lambda>v s. s\<lparr>slopeDisplay := v\<rparr>) (\<noteq>)
        (\<lambda>s. slopeDisplay_rhs pf (slope_sek s)),
      reactive ErrorDisplay errorDisplay (\<lambda>v s. s\<lparr>errorDisplay := v\<rparr>) (\<noteq>)
        (\<lambda>s. errorDisplay_rhs pf (slope_sek s) (slope_tan s)),
      reactive FuncPoints funcPoints (\<lambda>v s. s\<lparr>funcPoints := v\<rparr>) (\<noteq>)
        (\<lambda>s. funcPoints_rhs pf),
      reactive SekantePoints sekantePoints (\<lambda>v s. s\<lparr>sekantePoints := v\<rparr>) (\<noteq>)
        (\<lambda>s. sekantePoints_rhs pf (x0 s) (slope_sek s)),
      reactive TangentePoints tangentePoints (\<lambda>v s. s\<lparr>tangentePoints := v\<rparr>) (\<noteq>)
        (\<lambda>s. tangentePoints_rhs pf (x0 s) (slope_tan s)),
      reactive Px0 px0 (\<lambda>v s. s\<lparr>px0 := v\<rparr>) (\<lambda>old new. True)
        (\<lambda>s. px0_rhs (x0 s)),
      reactive Px1 px1 (\<lambda>v s. s\<lparr>px1 := v\<rparr>) (\<lambda>old new. True)
        (\<lambda>s. px1_rhs (x0 s) (deltaX s)),
      reactive ErrorRatio errorRatio (\<lambda>v s. s\<lparr>errorRatio := v\<rparr>) (\<noteq>)
        (\<lambda>s. errorRatio_rhs (slope_sek s) (slope_tan s)),
      reactive ErrorColor errorColor (\<lambda>v s. s\<lparr>errorColor := v\<rparr>) (\<noteq>)
        (\<lambda>s. errorColor_rhs pf (errorRatio s))]"

text \<open>
  \<open>fresh pf v s\<close>: in the state \<open>s\<close> the variable \<open>v\<close> holds the value of its
  declaration. A state is consistent when every variable is fresh.
\<close>

fun fresh :: "platform \<Rightarrow> var \<Rightarrow> state \<Rightarrow> bool" where
  "fresh pf DeltaX s = True"
| "fresh pf X0 s = True"
| "fresh pf Slope_sek s = (slope_sek s = slope_sek_rhs (x0 s) (deltaX s))"
| "fresh pf Slope_tan s = (slope_tan s = slope_tan_rhs (x0 s))"
| "fresh pf SlopeDisplay s = (slopeDisplay s = slopeDisplay_rhs pf (slope_sek s))"
| "fresh pf ErrorDisplay s = (errorDisplay s = errorDisplay_rhs pf (slope_sek s) (slope_tan s))"
| "fresh pf FuncPoints s = (funcPoints s = funcPoints_rhs pf)"
| "fresh pf SekantePoints s = (sekantePoints s = sekantePoints_rhs pf (x0 s) (slope_sek s))"
| "fresh pf TangentePoints s = (tangentePoints s = tangentePoints_rhs pf (x0 s) (slope_tan s))"
| "fresh pf Px0 s = (px0 s = px0_rhs (x0 s))"
| "fresh pf Px1 s = (px1 s = px1_rhs (x0 s) (deltaX s))"
| "fresh pf ErrorRatio s = (errorRatio s = errorRatio_rhs (slope_sek s) (slope_tan s))"
| "fresh pf ErrorColor s = (errorColor s = errorColor_rhs pf (errorRatio s))"

definition all_vars :: "var list" where
  "all_vars = [DeltaX, X0, Slope_sek, Slope_tan, SlopeDisplay, ErrorDisplay, FuncPoints,
     SekantePoints, TangentePoints, Px0, Px1, ErrorRatio, ErrorColor]"

definition consistent :: "platform \<Rightarrow> state \<Rightarrow> bool" where
  "consistent pf s = list_all (\<lambda>v. fresh pf v s) all_vars"

text \<open>
  While the declarations run: those in \<open>finished\<close> have been passed and are fresh, and every
  variable is fresh or mentions a dirty variable.
\<close>

definition update_inv :: "platform \<Rightarrow> var set \<Rightarrow> var set \<times> state \<Rightarrow> bool" where
  "update_inv pf finished ds =
     ((\<forall>i\<in>finished. fresh pf i (snd ds))
      \<and> (\<forall>i. fresh pf i (snd ds) \<or> set (mentions i) \<inter> fst ds \<noteq> {}))"

definition update :: "platform \<Rightarrow> var set \<times> state \<Rightarrow> var set \<times> state" where
  "update pf ds = foldl (\<lambda>acc decl. decl acc) ds (declarations pf)"

text \<open>
  The assignment \<open>deltaX = v\<close> of the slider binding and of the preset buttons: nothing
  happens when the value is the one \<open>deltaX\<close> already has.
\<close>

definition set_deltaX :: "platform \<Rightarrow> num \<Rightarrow> state \<Rightarrow> state" where
  "set_deltaX pf v s =
     (if deltaX s \<noteq> v then snd (update pf ({DeltaX}, s\<lparr>deltaX := v\<rparr>)) else s)"

text \<open>
  The two controls (template lines 296 to 318). The range input, with \<open>min\<close>, \<open>max\<close> and
  \<open>step\<close> set to \<open>DX_MIN\<close>, \<open>DX_MAX\<close> and \<open>DX_STEP\<close>, delivers the values
  \<open>DX_MIN + k * DX_STEP\<close> that do not exceed \<open>DX_MAX\<close>; a preset button assigns its own
  value. Nothing else assigns \<open>deltaX\<close>.
\<close>

datatype event = SliderInput nat | PresetClick num

definition slider_value :: "nat \<Rightarrow> num" where
  "slider_value k = DX_MIN + Fin (real k) * DX_STEP"

fun valid_event :: "event \<Rightarrow> bool" where
  "valid_event (SliderInput k) = (slider_value k \<le> DX_MAX)"
| "valid_event (PresetClick p) = (p \<in> set presets)"

fun handle :: "platform \<Rightarrow> event \<Rightarrow> state \<Rightarrow> state" where
  "handle pf (SliderInput k) s = set_deltaX pf (slider_value k) s"
| "handle pf (PresetClick p) s = set_deltaX pf p s"

inductive reachable :: "platform \<Rightarrow> state \<Rightarrow> bool" for pf :: platform where
  start: "reachable pf (init pf)"
| step: "reachable pf s \<Longrightarrow> valid_event e \<Longrightarrow> reachable pf (handle pf e s)"

text \<open>The state after a sequence of events, from the initial state.\<close>

definition run :: "platform \<Rightarrow> event list \<Rightarrow> state" where
  "run pf es = foldl (\<lambda>s e. handle pf e s) (init pf) es"


text \<open>The variables whose declarations mention neither \<open>deltaX\<close> nor a variable that does.\<close>

definition frame_of :: "state \<Rightarrow> num \<times> string \<times> string \<times> point" where
  "frame_of s = (slope_tan s, funcPoints s, tangentePoints s, px0 s)"

text \<open>A platform for evaluating the model where neither parameter is consulted.\<close>

definition plain_platform :: platform where
  "plain_platform = \<lparr> frac_str = (\<lambda>r. ''?''), other_num = (\<lambda>s. NaN) \<rparr>"

section \<open>Basic facts\<close>

lemmas viewport_defs =
  VW_def VH_def PAD_def xMin_def xMax_def yMin_def yMax_def plotW_def plotH_def minus_num_def

lemma replicate_numeral: "replicate (numeral k) x = x # replicate (pred_numeral k) x"
  by (simp add: numeral_eq_Suc)

lemmas digit_defs = digits.simps digit_chars_def fixed_digits_def Let_def replicate_numeral


lemma f_Fin: "f (Fin r) = Fin (r * r - 2 * r + 3)"
  by (simp add: f_def minus_num_def)

lemma df_Fin: "df (Fin r) = Fin (2 * r - 2)"
  by (simp add: df_def minus_num_def)

lemma slope_sek_Fin:
  "slope_sek_rhs (Fin a) (Fin d) =
     (if d = 0 then NaN
      else Fin ((((a + d) * (a + d) - 2 * (a + d) + 3) - (a * a - 2 * a + 3)) / d))"
  by (simp add: slope_sek_rhs_def f_Fin minus_num_def)

lemma slope_sek_closed: "d \<noteq> 0 \<Longrightarrow> slope_sek_rhs (Fin a) (Fin d) = Fin (2 * a - 2 + d)"
  by (simp add: slope_sek_Fin field_simps)

lemma error_closed:
  "d \<noteq> 0 \<Longrightarrow> Math_abs (slope_sek_rhs (Fin 2) (Fin d) - slope_tan_rhs (Fin 2)) = Fin \<bar>d\<bar>"
  by (simp add: slope_sek_closed slope_tan_rhs_def df_Fin minus_num_def)

section \<open>Rounding to double precision\<close>

text \<open>
  Evaluation of the rounded operators on numerals, the binary exponent, the monotonicity of
  rounding and its error bound.
\<close>

lemma expo_aux_numeral:
  "expo_aux (numeral k) x =
     (if 2 \<le> x then expo_aux (pred_numeral k) (x / 2) + 1
      else if x < 1 then expo_aux (pred_numeral k) (x * 2) - 1 else 0)"
  by (simp add: numeral_eq_Suc)

lemmas dbl_eval = fadd_def fsub_def fmul_def fdiv_def lit_def rnd_real_def nearest_def quantum_def binexp_def
  expo_def expo_aux_numeral round_even_def Let_def minus_num_def

lemma expo_aux_spec:
  "2 powi (- int n) \<le> x \<Longrightarrow> x < 2 powi (int n + 1) \<Longrightarrow>
     2 powi (expo_aux n x) \<le> x \<and> x < 2 powi (expo_aux n x + 1)"
proof (induction n arbitrary: x)
  case 0
  then show ?case by simp
next
  case (Suc n)
  have pos: "(0::real) < 2 powi (- int (Suc n))" by simp
  show ?case
  proof (cases "2 \<le> x")
    case True
    have "(2::real) powi (- int n) \<le> 1" by (simp add: power_int_minus inverse_le_1_iff)
    then have lo: "2 powi (- int n) \<le> x / 2" using True by simp
    have "x < 2 powi (int n + 1) * 2" using Suc.prems(2) by (simp add: power_int_add)
    then have hi: "x / 2 < 2 powi (int n + 1)" by simp
    from Suc.IH [OF lo hi] True show ?thesis
      by (simp add: power_int_add)
  next
    case False
    show ?thesis
    proof (cases "x < 1")
      case True
      have "2 powi (- int (Suc n) + 1) = 2 powi (- int (Suc n)) * (2::real)"
        by (subst power_int_add) simp_all
      moreover have "- int (Suc n) + 1 = - int n" by simp
      ultimately have "2 powi (- int n) = 2 powi (- int (Suc n)) * (2::real)"
        by simp
      then have lo: "2 powi (- int n) \<le> x * 2" using Suc.prems(1) by simp
      have "(2::real) \<le> 2 powi (int n + 1)" by (simp add: power_int_add)
      then have hi: "x * 2 < 2 powi (int n + 1)" using True by simp
      from Suc.IH [OF lo hi] True False show ?thesis
        by (simp add: power_int_diff power_int_add)
    next
      case False
      with \<open>\<not> 2 \<le> x\<close> show ?thesis by simp
    qed
  qed
qed

lemma expo_spec:
  assumes "1 / 2 ^ 1022 \<le> a" "a < 2 ^ 1024"
  shows "2 powi (expo a) \<le> a \<and> a < 2 powi (expo a + 1)"
proof -
  have "(2::real) powi (- int 1100) \<le> 1 / 2 ^ 1022"
    by (simp add: power_int_minus field_simps)
  then have lo: "2 powi (- int 1100) \<le> a" using assms(1) by linarith
  have "(2::real) ^ 1024 \<le> 2 powi (int 1100 + 1)" by simp
  then have hi: "a < 2 powi (int 1100 + 1)" using assms(2) by linarith
  show ?thesis unfolding expo_def by (rule expo_aux_spec [OF lo hi])
qed

lemma round_even_cases: "round_even y = \<lfloor>y\<rfloor> \<or> round_even y = \<lfloor>y\<rfloor> + 1"
  by (simp add: round_even_def Let_def)

lemma round_even_near: "\<bar>real_of_int (round_even y) - y\<bar> \<le> 1 / 2"
  unfolding round_even_def Let_def by (simp split: if_splits)

lemma round_even_int [simp]: "round_even (of_int n) = n"
  by (simp add: round_even_def)

lemma round_even_mono:
  assumes "y \<le> z"
  shows "round_even y \<le> round_even z"
proof (cases "\<lfloor>y\<rfloor> = \<lfloor>z\<rfloor>")
  case True
  then show ?thesis using assms
    unfolding round_even_def Let_def by (auto split: if_splits)
next
  case False
  then have "\<lfloor>y\<rfloor> + 1 \<le> \<lfloor>z\<rfloor>" using floor_mono [OF assms] by linarith
  moreover have "round_even y \<le> \<lfloor>y\<rfloor> + 1" "\<lfloor>z\<rfloor> \<le> round_even z"
    using round_even_cases [of y] round_even_cases [of z] by auto
  ultimately show ?thesis by linarith
qed

lemma round_even_minus: "round_even (- y) = - round_even y"
proof (cases "y = of_int \<lfloor>y\<rfloor>")
  case True
  then obtain n where "y = of_int n" by blast
  then have "- y = of_int (- n)" by simp
  then show ?thesis using \<open>y = of_int n\<close> by (simp only: round_even_int)
next
  case False
  then have fl: "\<lfloor>- y\<rfloor> = - \<lfloor>y\<rfloor> - 1"
    by (simp add: floor_eq_iff) linarith
  show ?thesis
    unfolding round_even_def Let_def fl by (auto split: if_splits)
qed

lemma p2_less: "(2::real) powi m < 2 powi n \<Longrightarrow> m < n"
  using power_int_increasing [of n m "2::real"] by (cases "m < n") auto

lemma p2_le: "(2::real) powi m \<le> 2 powi n \<Longrightarrow> m \<le> n"
  using power_int_strict_increasing [of n m "2::real"] by (cases "m \<le> n") auto

lemma p2_mono: "m \<le> n \<Longrightarrow> (2::real) powi m \<le> 2 powi n"
  by (rule power_int_increasing) simp_all

lemma binexp_minus [simp]: "binexp (- x) = binexp x"
  by (simp add: binexp_def)

lemma quantum_minus [simp]: "quantum (- x) = quantum x"
  by (simp add: quantum_def)

lemma quantum_pos [simp]: "0 < quantum x"
  by (simp add: quantum_def)

lemma quantum_nonneg [simp]: "0 \<le> quantum x"
  using quantum_pos [of x] by linarith

lemma quantum_nz [simp]: "quantum x \<noteq> 0"
  using quantum_pos [of x] by linarith

lemma round_even_zero [simp]: "round_even 0 = 0"
  using round_even_int [of 0] by simp

lemma binexp_spec:
  assumes "\<bar>x\<bar> < 2 ^ 1024"
  shows "- 1022 \<le> binexp x" "binexp x \<le> 1023" "\<bar>x\<bar> < 2 powi (binexp x + 1)"
    "1 / 2 ^ 1022 \<le> \<bar>x\<bar> \<Longrightarrow> 2 powi (binexp x) \<le> \<bar>x\<bar>"
proof -
  have small: "(1::real) / 2 ^ 1022 = 2 powi (- 1022)" by (simp add: power_int_minus field_simps)
  have big: "(2::real) ^ 1024 = 2 powi 1024" by simp
  show "\<bar>x\<bar> < 2 powi (binexp x + 1)"
  proof (cases "\<bar>x\<bar> < 1 / 2 ^ 1022")
    case True
    have "(2::real) powi (- 1022) \<le> 2 powi (- 1022 + 1)" by (rule p2_mono) simp
    with True show ?thesis unfolding small by (simp add: binexp_def small)
  next
    case False
    then show ?thesis using expo_spec [of "\<bar>x\<bar>"] assms by (simp add: binexp_def)
  qed
  show lo: "2 powi (binexp x) \<le> \<bar>x\<bar>" if "1 / 2 ^ 1022 \<le> \<bar>x\<bar>"
    using that expo_spec [of "\<bar>x\<bar>"] assms by (simp add: binexp_def)
  show "- 1022 \<le> binexp x"
  proof (cases "\<bar>x\<bar> < 1 / 2 ^ 1022")
    case True
    then show ?thesis by (simp add: binexp_def)
  next
    case False
    then have "2 powi (- 1022) \<le> \<bar>x\<bar>" unfolding small by simp
    also have "\<bar>x\<bar> < 2 powi (binexp x + 1)" by fact
    finally have "- 1022 < binexp x + 1" by (rule p2_less)
    then show ?thesis by simp
  qed
  show "binexp x \<le> 1023"
  proof (cases "\<bar>x\<bar> < 1 / 2 ^ 1022")
    case True
    then show ?thesis by (simp add: binexp_def)
  next
    case False
    then have "2 powi (binexp x) \<le> \<bar>x\<bar>" using lo by simp
    also have "\<bar>x\<bar> < 2 powi 1024" using assms unfolding big .
    finally have "binexp x < 1024" by (rule p2_less)
    then show ?thesis by simp
  qed
qed

lemma binexp_mono:
  assumes "\<bar>x\<bar> \<le> \<bar>y\<bar>" "\<bar>y\<bar> < 2 ^ 1024"
  shows "binexp x \<le> binexp y"
proof (cases "\<bar>x\<bar> < 1 / 2 ^ 1022")
  case True
  then have "binexp x = - 1022" by (simp add: binexp_def)
  then show ?thesis using binexp_spec(1) [OF assms(2)] by simp
next
  case False
  have x: "\<bar>x\<bar> < 2 ^ 1024" using assms by simp
  have "2 powi (binexp x) \<le> \<bar>x\<bar>" using binexp_spec(4) [OF x] False by simp
  also have "\<bar>x\<bar> \<le> \<bar>y\<bar>" by fact
  also have "\<bar>y\<bar> < 2 powi (binexp y + 1)" by (rule binexp_spec(3) [OF assms(2)])
  finally have "binexp x < binexp y + 1" by (rule p2_less)
  then show ?thesis by simp
qed

lemma nearest_minus: "nearest (- x) = - nearest x"
  by (simp add: nearest_def round_even_minus)

lemma nearest_zero [simp]: "nearest 0 = 0"
  by (simp add: nearest_def)

lemma nearest_err: "\<bar>nearest x - x\<bar> \<le> quantum x / 2"
proof -
  have "\<bar>real_of_int (round_even (x / quantum x)) - x / quantum x\<bar> * quantum x \<le> 1 / 2 * quantum x"
    by (intro mult_right_mono round_even_near) simp
  moreover have "\<bar>real_of_int (round_even (x / quantum x)) - x / quantum x\<bar> * quantum x
      = \<bar>nearest x - x\<bar>"
  proof -
    have "nearest x - x = (real_of_int (round_even (x / quantum x)) - x / quantum x) * quantum x"
      by (simp add: nearest_def algebra_simps)
    then show ?thesis by (simp add: abs_mult)
  qed
  ultimately show ?thesis by simp
qed

text \<open>A positive number is rounded within the closure of its binade.\<close>

lemma nearest_binade:
  assumes "0 < x" "x < 2 ^ 1024"
  shows "0 \<le> nearest x" "nearest x \<le> 2 powi (binexp x + 1)"
    "1 / 2 ^ 1022 \<le> x \<Longrightarrow> 2 powi (binexp x) \<le> nearest x"
proof -
  have ax: "\<bar>x\<bar> < 2 ^ 1024" "\<bar>x\<bar> = x" using assms by simp_all
  have q: "quantum x = 2 powi (binexp x - 52)" by (simp add: quantum_def)
  have up: "2 powi (binexp x + 1) = of_int (2 ^ 53) * quantum x"
    unfolding q by (simp add: power_int_diff power_int_add)
  have dn: "2 powi (binexp x) = of_int (2 ^ 52) * quantum x"
    unfolding q by (simp add: power_int_diff)
  have "0 \<le> x / quantum x" using assms(1) by (intro divide_nonneg_pos) simp_all
  then have "round_even 0 \<le> round_even (x / quantum x)"
    by (rule round_even_mono)
  then show "0 \<le> nearest x" by (simp add: nearest_def)
  have "x / quantum x \<le> of_int (2 ^ 53)"
    using binexp_spec(3) [OF ax(1)] ax(2) unfolding up by (simp add: field_simps)
  then have "round_even (x / quantum x) \<le> round_even (of_int (2 ^ 53))"
    by (rule round_even_mono)
  then have "real_of_int (round_even (x / quantum x)) \<le> real_of_int (2 ^ 53)"
    unfolding round_even_int by linarith
  then show "nearest x \<le> 2 powi (binexp x + 1)"
    unfolding up nearest_def by (intro mult_right_mono) simp_all
  show "2 powi (binexp x) \<le> nearest x" if "1 / 2 ^ 1022 \<le> x"
  proof -
    have "of_int (2 ^ 52) \<le> x / quantum x"
      using binexp_spec(4) [OF ax(1)] that ax(2) unfolding dn by (simp add: field_simps)
    then have "round_even (of_int (2 ^ 52)) \<le> round_even (x / quantum x)"
      by (rule round_even_mono)
    then have "real_of_int (2 ^ 52) \<le> real_of_int (round_even (x / quantum x))"
      unfolding round_even_int by linarith
    then show ?thesis
      unfolding dn nearest_def by (intro mult_right_mono) simp_all
  qed
qed

lemma nearest_mono_pos:
  assumes "0 < x" "x \<le> y" "y < 2 ^ 1024"
  shows "nearest x \<le> nearest y"
proof (cases "binexp x = binexp y")
  case True
  then have q: "quantum x = quantum y" by (simp add: quantum_def)
  have "x / quantum y \<le> y / quantum y" using assms(2) by (intro divide_right_mono) simp_all
  then have "round_even (x / quantum y) \<le> round_even (y / quantum y)" by (rule round_even_mono)
  then have "real_of_int (round_even (x / quantum y)) \<le> real_of_int (round_even (y / quantum y))"
    by linarith
  then show ?thesis unfolding nearest_def q by (intro mult_right_mono) simp_all
next
  case False
  have y: "0 < y" "\<bar>y\<bar> < 2 ^ 1024" "\<bar>x\<bar> \<le> \<bar>y\<bar>" "x < 2 ^ 1024" using assms by simp_all
  from False binexp_mono [OF y(3) y(2)] have lt: "binexp x + 1 \<le> binexp y" by simp
  have "- 1022 \<le> binexp x" using binexp_spec(1) [of x] y(4) assms(1) by simp
  with lt have "binexp y \<noteq> - 1022" by simp
  then have big: "1 / 2 ^ 1022 \<le> y" using y(1) by (auto simp: binexp_def split: if_splits)
  have "nearest x \<le> 2 powi (binexp x + 1)" by (rule nearest_binade(2) [OF assms(1) y(4)])
  also have "\<dots> \<le> 2 powi (binexp y)" by (rule p2_mono [OF lt])
  also have "\<dots> \<le> nearest y" by (rule nearest_binade(3) [OF y(1) assms(3) big])
  finally show ?thesis .
qed

lemma nearest_mono:
  assumes "x \<le> y" "\<bar>x\<bar> < 2 ^ 1024" "\<bar>y\<bar> < 2 ^ 1024"
  shows "nearest x \<le> nearest y"
proof -
  consider "0 < x" | "x \<le> 0" "0 \<le> y" | "y < 0" by linarith
  then show ?thesis
  proof cases
    case 1
    then show ?thesis using assms by (intro nearest_mono_pos) simp_all
  next
    case 2
    have "nearest x \<le> 0"
    proof (cases "x = 0")
      case False
      then have "0 \<le> nearest (- x)" using 2 assms by (intro nearest_binade(1)) simp_all
      then show ?thesis by (simp add: nearest_minus)
    qed simp
    moreover have "0 \<le> nearest y"
    proof (cases "y = 0")
      case False
      then show ?thesis using 2 assms by (intro nearest_binade(1)) simp_all
    qed simp
    ultimately show ?thesis by linarith
  next
    case 3
    then have "nearest (- y) \<le> nearest (- x)" using assms by (intro nearest_mono_pos) simp_all
    then show ?thesis by (simp add: nearest_minus)
  qed
qed

lemma rnd_real_cases:
  obtains (fin) "\<bar>x\<bar> < 2 ^ 1024" "\<bar>nearest x\<bar> < 2 ^ 1024" "rnd_real x = Fin (nearest x)"
  | (pos) "0 < x" "2 ^ 1024 \<le> \<bar>x\<bar> \<or> 2 ^ 1024 \<le> \<bar>nearest x\<bar>" "rnd_real x = PInf"
  | (neg) "x < 0" "2 ^ 1024 \<le> \<bar>x\<bar> \<or> 2 ^ 1024 \<le> \<bar>nearest x\<bar>" "rnd_real x = NInf"
proof (cases "2 ^ 1024 \<le> \<bar>x\<bar> \<or> 2 ^ 1024 \<le> \<bar>nearest x\<bar>")
  case False
  then show ?thesis by (intro fin) (simp_all add: rnd_real_def del: power_numeral)
next
  case True
  have nz: "x \<noteq> 0"
  proof
    assume "x = 0"
    with True show False by simp
  qed
  show ?thesis
  proof (cases "0 < x")
    case True
    with \<open>2 ^ 1024 \<le> \<bar>x\<bar> \<or> 2 ^ 1024 \<le> \<bar>nearest x\<bar>\<close> show ?thesis
      by (intro pos) (auto simp: rnd_real_def simp del: power_numeral)
  next
    case False
    with nz have "x < 0" by simp
    with \<open>2 ^ 1024 \<le> \<bar>x\<bar> \<or> 2 ^ 1024 \<le> \<bar>nearest x\<bar>\<close> show ?thesis
      by (intro neg) (auto simp: rnd_real_def simp del: power_numeral)
  qed
qed

lemma nearest_sign:
  assumes "\<bar>x\<bar> < 2 ^ 1024"
  shows "0 \<le> x \<Longrightarrow> 0 \<le> nearest x" "x \<le> 0 \<Longrightarrow> nearest x \<le> 0"
proof -
  show "0 \<le> nearest x" if "0 \<le> x"
    using nearest_mono [of 0 x] that assms by simp
  show "nearest x \<le> 0" if "x \<le> 0"
    using nearest_mono [of x 0] that assms by simp
qed

lemma rnd_real_mono:
  assumes "x \<le> y"
  shows "rnd_real x \<le> rnd_real y"
proof (cases x rule: rnd_real_cases)
  case neg
  then show ?thesis by (cases y rule: rnd_real_cases) simp_all
next
  case pos
  then have y: "0 < y" using assms by simp
  have "2 ^ 1024 \<le> \<bar>y\<bar> \<or> 2 ^ 1024 \<le> \<bar>nearest y\<bar>"
  proof (cases "2 ^ 1024 \<le> \<bar>y\<bar>")
    case False
    then have ylt: "\<bar>y\<bar> < 2 ^ 1024" by simp
    then have xlt: "\<bar>x\<bar> < 2 ^ 1024" using pos(1) assms by simp
    then have "2 ^ 1024 \<le> \<bar>nearest x\<bar>" using pos(2) by simp
    moreover have "0 \<le> nearest x" using nearest_sign(1) [OF xlt] pos(1) by simp
    moreover have "nearest x \<le> nearest y" by (rule nearest_mono [OF assms xlt ylt])
    ultimately show ?thesis by simp
  qed simp
  with y have "rnd_real y = PInf" by (cases y rule: rnd_real_cases) simp_all
  with pos show ?thesis by simp
next
  case fin
  note fx = fin
  show ?thesis
  proof (cases y rule: rnd_real_cases)
    case pos
    with fx show ?thesis by simp
  next
    case fin
    then show ?thesis using fx nearest_mono [OF assms fx(1) fin(1)] by simp
  next
    case neg
    then have x: "x < 0" using assms by simp
    have ylt: "\<bar>y\<bar> < 2 ^ 1024" using fx(1) neg(1) assms by simp
    then have "2 ^ 1024 \<le> \<bar>nearest y\<bar>" using neg(2) by simp
    moreover have "nearest y \<le> 0" using nearest_sign(2) [OF ylt] neg(1) by simp
    moreover have "nearest x \<le> nearest y" by (rule nearest_mono [OF assms fx(1) ylt])
    ultimately have "2 ^ 1024 \<le> \<bar>nearest x\<bar>" by simp
    with fx(2) show ?thesis by simp
  qed
qed

lemma rnd_mono: "a \<le> b \<Longrightarrow> rnd a \<le> rnd b"
proof (cases a; cases b)
  fix x y assume "a \<le> b" "a = Fin x" "b = Fin y"
  then show "rnd a \<le> rnd b" using rnd_real_mono [of x y] by simp
next
  fix x assume "a = Fin x" "b = PInf"
  then show "rnd a \<le> rnd b" by (cases x rule: rnd_real_cases) simp_all
next
  fix y assume "a = NInf" "b = Fin y"
  then show "rnd a \<le> rnd b" by (cases y rule: rnd_real_cases) simp_all
qed simp_all

text \<open>Below \<open>2^1023\<close> the result is finite, with a relative error of at most \<open>2^-53\<close>.\<close>

lemma rnd_real_fin:
  assumes "\<bar>x\<bar> < 2 ^ 1023"
  shows "rnd_real x = Fin (nearest x)" "\<bar>nearest x - x\<bar> \<le> \<bar>x\<bar> / 2 ^ 53 + 1 / 2 ^ 1075"
proof -
  have x: "\<bar>x\<bar> < 2 ^ 1024"
  proof -
    have "(2::real) ^ 1023 \<le> 2 ^ 1024" by (intro power_increasing) simp_all
    with assms show ?thesis by linarith
  qed
  have q: "quantum x / 2 \<le> \<bar>x\<bar> / 2 ^ 53 + 1 / 2 ^ 1075"
  proof (cases "\<bar>x\<bar> < 1 / 2 ^ 1022")
    case True
    then have "quantum x = 2 powi (- 1074)" by (simp add: quantum_def binexp_def)
    also have "\<dots> = 1 / 2 ^ 1074" by (simp add: power_int_minus field_simps)
    finally have "quantum x / 2 = 1 / 2 ^ 1075" by simp
    then show ?thesis by simp
  next
    case False
    then have "2 powi (binexp x) \<le> \<bar>x\<bar>" using binexp_spec(4) [OF x] by simp
    moreover have "quantum x / 2 = 2 powi (binexp x) / 2 ^ 53"
      by (simp add: quantum_def power_int_diff)
    ultimately have "quantum x / 2 \<le> \<bar>x\<bar> / 2 ^ 53" by (simp add: divide_right_mono)
    then show ?thesis by simp
  qed
  show err: "\<bar>nearest x - x\<bar> \<le> \<bar>x\<bar> / 2 ^ 53 + 1 / 2 ^ 1075"
    using nearest_err [of x] q by linarith
  have "\<bar>nearest x\<bar> \<le> \<bar>x\<bar> + \<bar>nearest x - x\<bar>" by linarith
  also have "\<dots> \<le> \<bar>x\<bar> + (\<bar>x\<bar> / 2 ^ 53 + 1 / 2 ^ 1075)" using err by linarith
  also have "\<dots> < 2 ^ 1023 + (2 ^ 1023 / 2 ^ 53 + 1 / 2 ^ 1075)"
    using assms by (intro add_strict_mono add_strict_right_mono divide_strict_right_mono) simp_all
  also have "\<dots> \<le> (2::real) ^ 1024" by simp
  finally have "\<bar>nearest x\<bar> < 2 ^ 1024" .
  with x show "rnd_real x = Fin (nearest x)"
    by (cases x rule: rnd_real_cases) simp_all
qed

lemma rnd_bound:
  assumes "\<bar>x\<bar> \<le> B" "1 \<le> B" "B \<le> 2 ^ 100"
  shows "\<exists>r. rnd (Fin x) = Fin r \<and> \<bar>r - x\<bar> \<le> B * (1 / (8 * 10 ^ 15))"
proof -
  have "(2::real) ^ 100 < 2 ^ 1023" by (intro power_strict_increasing) simp_all
  then have x: "\<bar>x\<bar> < 2 ^ 1023" using assms by linarith
  have "\<bar>nearest x - x\<bar> \<le> \<bar>x\<bar> / 2 ^ 53 + 1 / 2 ^ 1075" by (rule rnd_real_fin(2) [OF x])
  also have "\<dots> \<le> B / 2 ^ 53 + 1 / 2 ^ 1075" using assms(1) by (simp add: divide_right_mono)
  also have "\<dots> \<le> B / 2 ^ 53 + B / 2 ^ 1075" using assms(2) by (simp add: divide_right_mono)
  also have "\<dots> = B * (1 / 2 ^ 53 + 1 / 2 ^ 1075)" by (simp add: algebra_simps)
  also have "\<dots> \<le> B * (1 / (8 * 10 ^ 15))"
    using assms(2) by (intro mult_left_mono) simp_all
  finally have "\<bar>nearest x - x\<bar> \<le> B * (1 / (8 * 10 ^ 15))" .
  then show ?thesis using rnd_real_fin(1) [OF x] by (simp del: power_numeral)
qed

lemma fop_bound:
  assumes "u = 1 / (8 * 10 ^ 15)" "1 \<le> B" "B \<le> 2 ^ 100"
  shows "\<bar>a + b\<bar> \<le> B \<Longrightarrow> \<exists>r. fadd (Fin a) (Fin b) = Fin r \<and> \<bar>r - (a + b)\<bar> \<le> B * u"
    "\<bar>a - b\<bar> \<le> B \<Longrightarrow> \<exists>r. fsub (Fin a) (Fin b) = Fin r \<and> \<bar>r - (a - b)\<bar> \<le> B * u"
    "\<bar>a * b\<bar> \<le> B \<Longrightarrow> \<exists>r. fmul (Fin a) (Fin b) = Fin r \<and> \<bar>r - a * b\<bar> \<le> B * u"
    "b \<noteq> 0 \<Longrightarrow> \<bar>a / b\<bar> \<le> B \<Longrightarrow> \<exists>r. fdiv (Fin a) (Fin b) = Fin r \<and> \<bar>r - a / b\<bar> \<le> B * u"
  unfolding assms(1) fadd_def fsub_def fmul_def fdiv_def minus_num_def
  using rnd_bound [OF _ assms(2,3)]
  by (simp_all del: power_numeral)

lemma f_dbl_2: "f_dbl (Fin 2) = Fin 3"
  by (simp add: f_dbl_def dbl_eval)

lemma df_dbl_2: "df_dbl (Fin 2) = Fin 2"
  by (simp add: df_dbl_def dbl_eval)

section \<open>Secant and tangent\<close>

lemma slope_sek_dbl_near:
  assumes d: "1 / 100 \<le> d" "d \<le> 2"
  shows "\<exists>s. slope_sek_dbl (Fin 2) (Fin d) = Fin s \<and> \<bar>s - (2 + d)\<bar> \<le> 1 / 10 ^ 11"
proof -
  define u :: real where "u = 1 / (8 * 10 ^ 15)"
  have us: "0 \<le> u" "1000000 * u \<le> 1" by (simp_all add: u_def)
  have fin: "18605 * u \<le> 1 / 10 ^ 11" by (simp add: u_def)
  have "\<exists>r. fadd (Fin 2) (Fin d) = Fin r \<and> \<bar>r - (2 + d)\<bar> \<le> 4 * u"
    by (rule fop_bound(1) [OF u_def]) (use d in simp_all)
  then obtain s where s: "fadd (Fin 2) (Fin d) = Fin s" "\<bar>s - (2 + d)\<bar> \<le> 4 * u" by blast
  have s0: "0 \<le> s" "s \<le> 5" using s(2) d us by linarith+
  have "s * s \<le> 5 * 5" using s0 by (intro mult_mono) simp_all
  then have ss: "\<bar>s * s\<bar> \<le> 25" using s0 by simp
  have "\<exists>r. fmul (Fin s) (Fin s) = Fin r \<and> \<bar>r - s * s\<bar> \<le> 25 * u"
    by (rule fop_bound(3) [OF u_def]) (use ss in simp_all)
  then obtain p where p: "fmul (Fin s) (Fin s) = Fin p" "\<bar>p - s * s\<bar> \<le> 25 * u" by blast
  have "\<exists>r. fmul (Fin 2) (Fin s) = Fin r \<and> \<bar>r - 2 * s\<bar> \<le> 10 * u"
    by (rule fop_bound(3) [OF u_def]) (use s0 in simp_all)
  then obtain t where t: "fmul (Fin 2) (Fin s) = Fin t" "\<bar>t - 2 * s\<bar> \<le> 10 * u" by blast
  have pb: "\<bar>p\<bar> \<le> 26" using p(2) ss us by linarith
  have tb: "\<bar>t\<bar> \<le> 11" using t(2) s0 us by linarith
  have "\<exists>r. fsub (Fin p) (Fin t) = Fin r \<and> \<bar>r - (p - t)\<bar> \<le> 37 * u"
    by (rule fop_bound(2) [OF u_def]) (use pb tb in simp_all)
  then obtain v where v: "fsub (Fin p) (Fin t) = Fin v" "\<bar>v - (p - t)\<bar> \<le> 37 * u" by blast
  have vb: "\<bar>v\<bar> \<le> 38" using v(2) pb tb us by linarith
  have "\<exists>r. fadd (Fin v) (Fin 3) = Fin r \<and> \<bar>r - (v + 3)\<bar> \<le> 41 * u"
    by (rule fop_bound(1) [OF u_def]) (use vb in simp_all)
  then obtain w where w: "fadd (Fin v) (Fin 3) = Fin w" "\<bar>w - (v + 3)\<bar> \<le> 41 * u" by blast
  have wb: "\<bar>w\<bar> \<le> 42" using w(2) vb us by linarith
  have fs: "f_dbl (Fin s) = Fin w"
    by (simp add: f_dbl_def p t v w)
  have "\<exists>r. fsub (Fin w) (Fin 3) = Fin r \<and> \<bar>r - (w - 3)\<bar> \<le> 45 * u"
    by (rule fop_bound(2) [OF u_def]) (use wb in simp_all)
  then obtain n where n: "fsub (Fin w) (Fin 3) = Fin n" "\<bar>n - (w - 3)\<bar> \<le> 45 * u" by blast
  define \<eta> where "\<eta> = s - (2 + d)"
  have eta: "\<bar>\<eta>\<bar> \<le> 4 * u" using s(2) by (simp add: \<eta>_def)
  have ident: "s * s - 2 * s - (2 * d + d * d) = \<eta> * (2 + 2 * d + \<eta>)"
    by (simp add: \<eta>_def algebra_simps)
  have "\<bar>2 + 2 * d + \<eta>\<bar> \<le> 7" using eta d us by linarith
  then have "\<bar>\<eta> * (2 + 2 * d + \<eta>)\<bar> \<le> (4 * u) * 7"
    unfolding abs_mult using eta by (intro mult_mono) simp_all
  then have core: "\<bar>s * s - 2 * s - (2 * d + d * d)\<bar> \<le> 28 * u" unfolding ident by simp
  have "n - (2 * d + d * d) = (n - (w - 3)) + (w - (v + 3)) + (v - (p - t)) + (p - s * s)
      - (t - 2 * s) + (s * s - 2 * s - (2 * d + d * d))" by simp
  then have nb: "\<bar>n - (2 * d + d * d)\<bar> \<le> 186 * u"
    using n(2) w(2) v(2) p(2) t(2) core by linarith
  have dpos: "0 < d" using d by linarith
  have "n / d - (2 + d) = (n - (2 * d + d * d)) / d"
    using dpos by (simp add: field_simps)
  then have "\<bar>n / d - (2 + d)\<bar> = \<bar>n - (2 * d + d * d)\<bar> / d"
    using dpos by (simp add: abs_divide del: add_divide_distrib diff_divide_distrib)
  also have "\<dots> \<le> (186 * u) / d" using nb dpos by (simp add: divide_right_mono)
  also have "\<dots> \<le> (186 * u) / (1 / 100)"
    using d(1) us(1) by (intro divide_left_mono) simp_all
  finally have quot: "\<bar>n / d - (2 + d)\<bar> \<le> 18600 * u" by simp
  then have qb: "\<bar>n / d\<bar> \<le> 5" using d us by linarith
  have "\<exists>r. fdiv (Fin n) (Fin d) = Fin r \<and> \<bar>r - n / d\<bar> \<le> 5 * u"
    by (rule fop_bound(4) [OF u_def]) (use dpos qb in simp_all)
  then obtain q where q: "fdiv (Fin n) (Fin d) = Fin q" "\<bar>q - n / d\<bar> \<le> 5 * u" by blast
  have "slope_sek_dbl (Fin 2) (Fin d) = Fin q"
    by (simp add: slope_sek_dbl_def s fs f_dbl_2 n q)
  moreover have "\<bar>q - (2 + d)\<bar> \<le> 18605 * u"
    using q(2) quot by linarith
  then have "\<bar>q - (2 + d)\<bar> \<le> 1 / 10 ^ 11"
    using fin by (rule order_trans)
  ultimately show ?thesis by blast
qed

lemma error_dbl_near:
  assumes d: "1 / 100 \<le> d" "d \<le> 2"
  shows "\<exists>s e. slope_sek_dbl (Fin 2) (Fin d) = Fin s \<and> \<bar>s - (2 + d)\<bar> \<le> 1 / 10 ^ 11
    \<and> Math_abs (fsub (slope_sek_dbl (Fin 2) (Fin d)) (df_dbl (Fin 2))) = Fin e
    \<and> \<bar>e - d\<bar> \<le> 2 / 10 ^ 11"
proof -
  define u :: real where "u = 1 / (8 * 10 ^ 15)"
  define t :: real where "t = 1 / 10 ^ 11"
  have ut: "0 \<le> u" "3 * u \<le> t" "t \<le> 1 / 1000" by (simp_all add: u_def t_def)
  obtain s where s: "slope_sek_dbl (Fin 2) (Fin d) = Fin s" "\<bar>s - (2 + d)\<bar> \<le> t"
    using slope_sek_dbl_near [OF d] unfolding t_def by blast
  have sb: "\<bar>s - 2\<bar> \<le> 3" using s(2) d ut by linarith
  have "\<exists>r. fsub (Fin s) (Fin 2) = Fin r \<and> \<bar>r - (s - 2)\<bar> \<le> 3 * u"
    by (rule fop_bound(2) [OF u_def]) (use sb in simp_all)
  then obtain r where r: "fsub (Fin s) (Fin 2) = Fin r" "\<bar>r - (s - 2)\<bar> \<le> 3 * u" by blast
  have "\<bar>\<bar>r\<bar> - d\<bar> \<le> 2 * t" using r(2) s(2) d ut by linarith
  then have "\<bar>\<bar>r\<bar> - d\<bar> \<le> 2 / 10 ^ 11" by (simp add: t_def)
  moreover have "Math_abs (fsub (slope_sek_dbl (Fin 2) (Fin d)) (df_dbl (Fin 2))) = Fin \<bar>r\<bar>"
    by (simp add: s df_dbl_2 r)
  ultimately show ?thesis using s unfolding t_def by blast
qed

lemma error_dbl_mono:
  assumes "1 / 100 \<le> d\<^sub>1" "d\<^sub>1 + 1 / 10 ^ 10 \<le> d\<^sub>2" "d\<^sub>2 \<le> 2"
  shows "Math_abs (fsub (slope_sek_dbl (Fin 2) (Fin d\<^sub>1)) (df_dbl (Fin 2)))
       < Math_abs (fsub (slope_sek_dbl (Fin 2) (Fin d\<^sub>2)) (df_dbl (Fin 2)))"
proof -
  define t :: real where "t = 1 / 10 ^ 11"
  have t: "10 * t = 1 / 10 ^ 10" "0 < t" by (simp_all add: t_def)
  have d1: "d\<^sub>1 \<le> 2" and d2: "1 / 100 \<le> d\<^sub>2" using assms t by linarith+
  obtain e\<^sub>1 where e1: "Math_abs (fsub (slope_sek_dbl (Fin 2) (Fin d\<^sub>1)) (df_dbl (Fin 2))) = Fin e\<^sub>1"
      "\<bar>e\<^sub>1 - d\<^sub>1\<bar> \<le> 2 * t"
    using error_dbl_near [OF assms(1) d1] unfolding t_def by auto
  obtain e\<^sub>2 where e2: "Math_abs (fsub (slope_sek_dbl (Fin 2) (Fin d\<^sub>2)) (df_dbl (Fin 2))) = Fin e\<^sub>2"
      "\<bar>e\<^sub>2 - d\<^sub>2\<bar> \<le> 2 * t"
    using error_dbl_near [OF d2 assms(3)] unfolding t_def by auto
  have "e\<^sub>1 < e\<^sub>2" using e1(2) e2(2) assms(2) t by linarith
  then show ?thesis by (simp add: e1 e2)
qed

text \<open>
  In double arithmetic the error does not decrease all the way down: at \<open>deltaX = 1e-17\<close>
  the sum \<open>x0 + deltaX\<close> is \<open>x0\<close> again, the secant slope is 0 and the error 2, larger than
  the error 1 at \<open>deltaX = 1\<close>; and the error at \<open>deltaX = 1e-9\<close> is larger than the error
  at \<open>deltaX = 1e-8\<close>.
\<close>

theorem secant_error_not_monotone:
  "Fin 0 < lit (1 / 10 ^ 17) \<and> lit (1 / 10 ^ 17) < Fin 1
   \<and> slope_sek_dbl (Fin 2) (lit (1 / 10 ^ 17)) = Fin 0
   \<and> Math_abs (fsub (slope_sek_dbl (Fin 2) (lit (1 / 10 ^ 17))) (df_dbl (Fin 2))) = Fin 2
   \<and> Math_abs (fsub (slope_sek_dbl (Fin 2) (Fin 1)) (df_dbl (Fin 2))) = Fin 1
   \<and> Fin 0 < lit (1 / 10 ^ 9) \<and> lit (1 / 10 ^ 9) < lit (1 / 10 ^ 8)
   \<and> Math_abs (fsub (slope_sek_dbl (Fin 2) (lit (1 / 10 ^ 8))) (df_dbl (Fin 2)))
       < Math_abs (fsub (slope_sek_dbl (Fin 2) (lit (1 / 10 ^ 9))) (df_dbl (Fin 2)))"
proof -
  have slopes: "slope_sek_dbl (Fin 2) (lit (1 / 10 ^ 17)) = Fin 0"
    "slope_sek_dbl (Fin 2) (lit (1 / 10 ^ 9)) = Fin (549755859375 / 274877906944)"
    "slope_sek_dbl (Fin 2) (lit (1 / 10 ^ 8)) = Fin (4398046484375 / 2199023255552)"
    "slope_sek_dbl (Fin 2) (Fin 1) = Fin 3"
    by (simp_all add: slope_sek_dbl_def f_dbl_def dbl_eval)
  have lits: "Fin 0 < lit (1 / 10 ^ 17)" "lit (1 / 10 ^ 17) < Fin 1"
    "Fin 0 < lit (1 / 10 ^ 9)" "lit (1 / 10 ^ 9) < lit (1 / 10 ^ 8)"
    by (simp_all add: dbl_eval)
  have errs: "Math_abs (fsub (Fin 0) (df_dbl (Fin 2))) = Fin 2"
    "Math_abs (fsub (Fin 3) (df_dbl (Fin 2))) = Fin 1"
    "Math_abs (fsub (Fin (4398046484375 / 2199023255552)) (df_dbl (Fin 2)))
       < Math_abs (fsub (Fin (549755859375 / 274877906944)) (df_dbl (Fin 2)))"
    unfolding df_dbl_2 by (simp_all add: dbl_eval)
  show ?thesis unfolding slopes by (intro conjI lits errs refl)
qed

text \<open>
  C1: for \<open>f x = x\<^sup>2 - 2 x + 3\<close> at \<open>x0 = 2\<close> the tangent slope is 2; at
  \<open>deltaX = 1\<close> the secant slope is 3 and the error is displayed as 1.0000; at
  \<open>deltaX = 0.01\<close> the secant slope is 2.009999999999934, displayed as 2.0100, with the
  error displayed as 0.0100. For every \<open>deltaX\<close> from 0.01 to 2 the secant slope, computed
  in double arithmetic, is within \<open>10^-11\<close> of \<open>2 + deltaX\<close>, its value in exact
  arithmetic, and the error \<open>\<bar>secant slope - tangent slope\<bar>\<close> is within \<open>2 * 10^-11\<close>
  of \<open>deltaX\<close>; so the error decreases strictly when \<open>deltaX\<close> decreases by \<open>10^-10\<close> or
  more within this range.
\<close>

theorem secant_error_in_doubles:
  "df_dbl (Fin 2) = Fin 2
   \<and> f_dbl (Fin 3) = Fin 6 \<and> f_dbl (Fin 2) = Fin 3
   \<and> slope_sek_dbl (Fin 2) (Fin 1) = Fin 3
   \<and> Math_abs (fsub (slope_sek_dbl (Fin 2) (Fin 1)) (df_dbl (Fin 2))) = Fin 1
   \<and> errorDisplay_dbl pf (slope_sek_dbl (Fin 2) (Fin 1)) (df_dbl (Fin 2)) = ''1.0000''
   \<and> lit 0.01 = Fin (5764607523034235 / 576460752303423488)
   \<and> slope_sek_dbl (Fin 2) (lit 0.01) = Fin (35360293949275 / 17592186044416)
   \<and> slopeDisplay_rhs pf (slope_sek_dbl (Fin 2) (lit 0.01)) = ''2.0100''
   \<and> Math_abs (fsub (slope_sek_dbl (Fin 2) (lit 0.01)) (df_dbl (Fin 2)))
        = Fin (175921860443 / 17592186044416)
   \<and> errorDisplay_dbl pf (slope_sek_dbl (Fin 2) (lit 0.01)) (df_dbl (Fin 2)) = ''0.0100''
   \<and> (1 / 100 \<le> d \<and> d \<le> 2 \<longrightarrow>
        near (1 / 10 ^ 11) (slope_sek_dbl (Fin 2) (Fin d)) (2 + d)
        \<and> near (2 / 10 ^ 11) (Math_abs (fsub (slope_sek_dbl (Fin 2) (Fin d)) (df_dbl (Fin 2)))) d)
   \<and> (1 / 100 \<le> d\<^sub>1 \<and> d\<^sub>1 + 1 / 10 ^ 10 \<le> d\<^sub>2 \<and> d\<^sub>2 \<le> 2 \<longrightarrow>
        Math_abs (fsub (slope_sek_dbl (Fin 2) (Fin d\<^sub>1)) (df_dbl (Fin 2)))
          < Math_abs (fsub (slope_sek_dbl (Fin 2) (Fin d\<^sub>2)) (df_dbl (Fin 2))))"
proof -
  have vals:
    "df_dbl (Fin 2) = Fin 2" "f_dbl (Fin 3) = Fin 6" "f_dbl (Fin 2) = Fin 3"
    by (simp_all add: df_dbl_def f_dbl_def dbl_eval)
  have small: "lit 0.01 = Fin (5764607523034235 / 576460752303423488)"
    by (simp add: dbl_eval)
  have slopes:
    "slope_sek_dbl (Fin 2) (Fin 1) = Fin 3"
    "slope_sek_dbl (Fin 2) (lit 0.01) = Fin (35360293949275 / 17592186044416)"
    by (simp_all add: slope_sek_dbl_def f_dbl_def dbl_eval)
  have errs:
    "Math_abs (fsub (slope_sek_dbl (Fin 2) (Fin 1)) (df_dbl (Fin 2))) = Fin 1"
    "Math_abs (fsub (slope_sek_dbl (Fin 2) (lit 0.01)) (df_dbl (Fin 2)))
        = Fin (175921860443 / 17592186044416)"
    unfolding slopes vals by (simp_all add: dbl_eval)
  have shown:
    "errorDisplay_dbl pf (slope_sek_dbl (Fin 2) (Fin 1)) (df_dbl (Fin 2)) = ''1.0000''"
    "slopeDisplay_rhs pf (slope_sek_dbl (Fin 2) (lit 0.01)) = ''2.0100''"
    "errorDisplay_dbl pf (slope_sek_dbl (Fin 2) (lit 0.01)) (df_dbl (Fin 2)) = ''0.0100''"
    unfolding errorDisplay_dbl_def errs
    unfolding slopes
    by (simp_all add: slopeDisplay_rhs_def digit_defs)
  have nearby: "near (1 / 10 ^ 11) (slope_sek_dbl (Fin 2) (Fin d)) (2 + d)
      \<and> near (2 / 10 ^ 11) (Math_abs (fsub (slope_sek_dbl (Fin 2) (Fin d)) (df_dbl (Fin 2)))) d"
    if "1 / 100 \<le> d \<and> d \<le> 2"
  proof -
    from that have "1 / 100 \<le> d" "d \<le> 2" by simp_all
    from error_dbl_near [OF this] obtain s e where
      "slope_sek_dbl (Fin 2) (Fin d) = Fin s" "\<bar>s - (2 + d)\<bar> \<le> 1 / 10 ^ 11"
      "Math_abs (fsub (slope_sek_dbl (Fin 2) (Fin d)) (df_dbl (Fin 2))) = Fin e"
      "\<bar>e - d\<bar> \<le> 2 / 10 ^ 11" by blast
    then show ?thesis by (simp only: near.simps)
  qed
  have mono: "Math_abs (fsub (slope_sek_dbl (Fin 2) (Fin d\<^sub>1)) (df_dbl (Fin 2)))
          < Math_abs (fsub (slope_sek_dbl (Fin 2) (Fin d\<^sub>2)) (df_dbl (Fin 2)))"
    if "1 / 100 \<le> d\<^sub>1 \<and> d\<^sub>1 + 1 / 10 ^ 10 \<le> d\<^sub>2 \<and> d\<^sub>2 \<le> 2"
    using that error_dbl_mono [of d\<^sub>1 d\<^sub>2] by blast
  show ?thesis
    by (intro conjI impI vals small slopes errs shown nearby [THEN conjunct1]
          nearby [THEN conjunct2] mono)
       blast+
qed

theorem secant_error_in_doubles_witness:
  "(1 / 100 :: real) \<le> 1 / 2 \<and> (1 / 2 :: real) \<le> 2
   \<and> near (1 / 10 ^ 11) (slope_sek_dbl (Fin 2) (Fin (1 / 2))) (2 + 1 / 2)
   \<and> near (2 / 10 ^ 11) (Math_abs (fsub (slope_sek_dbl (Fin 2) (Fin (1 / 2))) (df_dbl (Fin 2)))) (1 / 2)
   \<and> (1 / 2 + 1 / 10 ^ 10 :: real) \<le> 1 \<and> (1 :: real) \<le> 2
   \<and> Math_abs (fsub (slope_sek_dbl (Fin 2) (Fin (1 / 2))) (df_dbl (Fin 2)))
        < Math_abs (fsub (slope_sek_dbl (Fin 2) (Fin 1)) (df_dbl (Fin 2)))"
proof -
  have hyps: "(1 / 100 :: real) \<le> 1 / 2" "(1 / 2 :: real) \<le> 2"
    "(1 / 2 + 1 / 10 ^ 10 :: real) \<le> 1" "(1 :: real) \<le> 2"
    by simp_all
  from secant_error_in_doubles [of plain_platform "1 / 2" "1 / 2" 1] hyps
  show ?thesis by blast
qed



section \<open>Digits written and read back\<close>

















section \<open>Curve sampler\<close>



section \<open>Coordinate mapper\<close>

lemma plotW_dbl: "plotW_dbl = Fin 525"
  by (simp add: plotW_dbl_def VW_def PAD_def dbl_eval)

lemma plotH_dbl: "plotH_dbl = Fin 330"
  by (simp add: plotH_dbl_def VH_def PAD_def dbl_eval)

lemma xRange_dbl: "fsub xMax xMin = Fin 4"
  by (simp add: xMax_def xMin_def dbl_eval)

lemma yRange_dbl: "fsub yMax yMin = Fin 9"
  by (simp add: yMax_def yMin_def dbl_eval)

lemma toSvgX_dbl_unfold:
  "toSvgX_dbl x = rnd (Fin 55 + rnd (rnd (rnd (x - Fin 0) / Fin 4) * Fin 525))"
  unfolding toSvgX_dbl_def plotW_dbl xRange_dbl
  by (simp add: PAD_def xMin_def fadd_def fsub_def fmul_def fdiv_def)

lemma toSvgY_dbl_unfold:
  "toSvgY_dbl y = rnd (Fin 20 + rnd (rnd (Fin 1 - rnd (rnd (y - Fin 0) / Fin 9)) * Fin 330))"
  unfolding toSvgY_dbl_def plotH_dbl yRange_dbl
  by (simp add: PAD_def yMin_def fadd_def fsub_def fmul_def fdiv_def)

lemma num_le_trans: "a \<le> b \<Longrightarrow> b \<le> c \<Longrightarrow> a \<le> (c::num)"
  by (cases a; cases b; cases c) simp_all

lemma num_le_less_trans: "a \<le> b \<Longrightarrow> b < c \<Longrightarrow> a < (c::num)"
  by (cases a; cases b; cases c) simp_all

lemma num_less_le_trans: "a < b \<Longrightarrow> b \<le> c \<Longrightarrow> a < (c::num)"
  by (cases a; cases b; cases c) simp_all

lemma num_mono:
  fixes a b :: num
  assumes "a \<le> b"
  shows "a - Fin c \<le> b - Fin c"
    "Fin c + a \<le> Fin c + b"
    "Fin c - b \<le> Fin c - a"
    "0 < c \<Longrightarrow> a / Fin c \<le> b / Fin c"
    "0 < c \<Longrightarrow> a * Fin c \<le> b * Fin c"
  using assms
  by (cases a; cases b; simp add: minus_num_def divide_right_mono)+

lemma toSvgX_dbl_mono: "x \<le> y \<Longrightarrow> toSvgX_dbl (Fin x) \<le> toSvgX_dbl (Fin y)"
  unfolding toSvgX_dbl_unfold
  by (intro rnd_mono num_mono) simp_all

lemma toSvgY_dbl_mono: "x \<le> y \<Longrightarrow> toSvgY_dbl (Fin y) \<le> toSvgY_dbl (Fin x)"
  unfolding toSvgY_dbl_unfold
  by (intro rnd_mono num_mono) simp_all

lemma toSvgX_dbl_values:
  "toSvgX_dbl (Fin 0) = Fin 55" "toSvgX_dbl (Fin 4) = Fin 580"
  "toSvgX_dbl (Fin (- (1 / 2 ^ 40))) = Fin (55 - 525 / 2 ^ 42)"
  "toSvgX_dbl (Fin (4 + 1 / 2 ^ 40)) = Fin (580 + 525 / 2 ^ 42)"
  by (simp_all add: toSvgX_dbl_unfold dbl_eval)

lemma toSvgY_dbl_values:
  "toSvgY_dbl (Fin 0) = Fin 350" "toSvgY_dbl (Fin 9) = Fin 20"
  "toSvgY_dbl (Fin (- (1 / 2 ^ 40))) = Fin (6157265115546187 / 17592186044416)"
  "toSvgY_dbl (Fin (9 + 1 / 2 ^ 40)) = Fin (703687441775467 / 35184372088832)"
  by (simp_all add: toSvgY_dbl_unfold dbl_eval)

lemma toSvgX_dbl_near:
  assumes "\<bar>x\<bar> \<le> 100"
  shows "\<exists>r. toSvgX_dbl (Fin x) = Fin r \<and> \<bar>r - (55 + x / 4 * 525)\<bar> \<le> 1 / 10 ^ 11"
proof -
  define u :: real where "u = 1 / (8 * 10 ^ 15)"
  have us: "0 \<le> u" "1000000 * u \<le> 1" by (simp_all add: u_def)
  have fin: "53275 * u \<le> 1 / 10 ^ 11" by (simp add: u_def)
  have "\<exists>r. fsub (Fin x) (Fin 0) = Fin r \<and> \<bar>r - (x - 0)\<bar> \<le> 100 * u"
    by (rule fop_bound(2) [OF u_def]) (use assms in simp_all)
  then obtain a where a: "fsub (Fin x) (Fin 0) = Fin a" "\<bar>a - x\<bar> \<le> 100 * u" by auto
  have ab: "\<bar>a / 4\<bar> \<le> 26" using a(2) assms us by simp
  have "\<exists>r. fdiv (Fin a) (Fin 4) = Fin r \<and> \<bar>r - a / 4\<bar> \<le> 26 * u"
    by (rule fop_bound(4) [OF u_def]) (use ab in simp_all)
  then obtain b where b: "fdiv (Fin a) (Fin 4) = Fin b" "\<bar>b - a / 4\<bar> \<le> 26 * u" by blast
  have b': "\<bar>b - x / 4\<bar> \<le> 51 * u" using a(2) b(2) by linarith
  have bb: "\<bar>b * 525\<bar> \<le> 13200" using b' assms us by simp
  have "\<exists>r. fmul (Fin b) (Fin 525) = Fin r \<and> \<bar>r - b * 525\<bar> \<le> 13200 * u"
    by (rule fop_bound(3) [OF u_def]) (use bb in simp_all)
  then obtain c where c: "fmul (Fin b) (Fin 525) = Fin c" "\<bar>c - b * 525\<bar> \<le> 13200 * u" by blast
  have c': "\<bar>c - x / 4 * 525\<bar> \<le> 39975 * u" using b' c(2) by linarith
  have cb: "\<bar>55 + c\<bar> \<le> 13300" using c(2) bb us by linarith
  have "\<exists>r. fadd (Fin 55) (Fin c) = Fin r \<and> \<bar>r - (55 + c)\<bar> \<le> 13300 * u"
    by (rule fop_bound(1) [OF u_def]) (use cb in simp_all)
  then obtain r where r: "fadd (Fin 55) (Fin c) = Fin r" "\<bar>r - (55 + c)\<bar> \<le> 13300 * u" by blast
  have "toSvgX_dbl (Fin x) = Fin r"
    unfolding toSvgX_dbl_def plotW_dbl xRange_dbl by (simp add: PAD_def xMin_def a b c r)
  moreover have "\<bar>r - (55 + x / 4 * 525)\<bar> \<le> 53275 * u" using r(2) c' by linarith
  then have "\<bar>r - (55 + x / 4 * 525)\<bar> \<le> 1 / 10 ^ 11" using fin by (rule order_trans)
  ultimately show ?thesis by blast
qed

lemma toSvgY_dbl_near:
  assumes "\<bar>y\<bar> \<le> 100"
  shows "\<exists>r. toSvgY_dbl (Fin y) = Fin r \<and> \<bar>r - (20 + (1 - y / 9) * 330)\<bar> \<le> 1 / 10 ^ 11"
proof -
  define u :: real where "u = 1 / (8 * 10 ^ 15)"
  have us: "0 \<le> u" "1000000 * u \<le> 1" by (simp_all add: u_def)
  have fin: "60000 * u \<le> 1 / 10 ^ 11" by (simp add: u_def)
  have "\<exists>r. fsub (Fin y) (Fin 0) = Fin r \<and> \<bar>r - (y - 0)\<bar> \<le> 100 * u"
    by (rule fop_bound(2) [OF u_def]) (use assms in simp_all)
  then obtain a where a: "fsub (Fin y) (Fin 0) = Fin a" "\<bar>a - y\<bar> \<le> 100 * u" by auto
  have ab: "\<bar>a / 9\<bar> \<le> 12" using a(2) assms us by simp
  have "\<exists>r. fdiv (Fin a) (Fin 9) = Fin r \<and> \<bar>r - a / 9\<bar> \<le> 12 * u"
    by (rule fop_bound(4) [OF u_def]) (use ab in simp_all)
  then obtain b where b: "fdiv (Fin a) (Fin 9) = Fin b" "\<bar>b - a / 9\<bar> \<le> 12 * u" by blast
  have b': "\<bar>b - y / 9\<bar> \<le> 24 * u" using a(2) b(2) by linarith
  have bb: "\<bar>1 - b\<bar> \<le> 13" using b' assms us by linarith
  have "\<exists>r. fsub (Fin 1) (Fin b) = Fin r \<and> \<bar>r - (1 - b)\<bar> \<le> 13 * u"
    by (rule fop_bound(2) [OF u_def]) (use bb in simp_all)
  then obtain t where t: "fsub (Fin 1) (Fin b) = Fin t" "\<bar>t - (1 - b)\<bar> \<le> 13 * u" by blast
  define e where "e = 1 - y / 9"
  have t': "\<bar>t - e\<bar> \<le> 37 * u" using b' t(2) unfolding e_def by linarith
  have tb: "\<bar>t * 330\<bar> \<le> 4300" using t' assms us unfolding e_def by simp
  have "\<exists>r. fmul (Fin t) (Fin 330) = Fin r \<and> \<bar>r - t * 330\<bar> \<le> 4300 * u"
    by (rule fop_bound(3) [OF u_def]) (use tb in simp_all)
  then obtain c where c: "fmul (Fin t) (Fin 330) = Fin c" "\<bar>c - t * 330\<bar> \<le> 4300 * u" by blast
  have c': "\<bar>c - e * 330\<bar> \<le> 16510 * u" using t' c(2) by linarith
  have cb: "\<bar>20 + c\<bar> \<le> 4400" using c(2) tb us by linarith
  have "\<exists>r. fadd (Fin 20) (Fin c) = Fin r \<and> \<bar>r - (20 + c)\<bar> \<le> 4400 * u"
    by (rule fop_bound(1) [OF u_def]) (use cb in simp_all)
  then obtain r where r: "fadd (Fin 20) (Fin c) = Fin r" "\<bar>r - (20 + c)\<bar> \<le> 4400 * u" by blast
  have "toSvgY_dbl (Fin y) = Fin r"
    unfolding toSvgY_dbl_def plotH_dbl yRange_dbl by (simp add: PAD_def yMin_def a b t c r)
  moreover have "\<bar>r - (20 + e * 330)\<bar> \<le> 60000 * u" using r(2) c' us by linarith
  then have "\<bar>r - (20 + (1 - y / 9) * 330)\<bar> \<le> 1 / 10 ^ 11"
    unfolding e_def using fin by (rule order_trans)
  ultimately show ?thesis by blast
qed

text \<open>
  An input just outside the viewport can be mapped onto the edge of the plot rectangle,
  and the computed value need not be that of the affine function: \<open>-1e-20\<close> is mapped to
  55 horizontally and to 350 vertically, as 0 is, and \<open>toSvgY 3\<close> is
  240.00000000000003, above \<open>20 + (1 - 3 / 9) * 330 = 240\<close>.
\<close>

theorem mapper_edge_counterexample:
  "lit (- (1 / 10 ^ 20)) < xMin \<and> toSvgX_dbl (lit (- (1 / 10 ^ 20))) = Fin 55
   \<and> toSvgX_dbl xMin = Fin 55
   \<and> lit (- (1 / 10 ^ 20)) < yMin \<and> toSvgY_dbl (lit (- (1 / 10 ^ 20))) = Fin 350
   \<and> toSvgY_dbl yMin = Fin 350
   \<and> toSvgY_dbl (Fin 3) = Fin (8444249301319681 / 35184372088832)
   \<and> Fin (20 + (1 - 3 / 9) * 330) < toSvgY_dbl (Fin 3)"
  by (simp add: toSvgX_dbl_unfold toSvgY_dbl_unfold xMin_def yMin_def dbl_eval)

text \<open>
  C3: the mapper computes \<open>toSvgX x = left + (x - xMin) / (xMax - xMin) * plotW\<close> and
  \<open>toSvgY y = top + (1 - (y - yMin) / (yMax - yMin)) * plotH\<close> in double arithmetic, with
  left = 55, top = 20, plotW = 525 and plotH = 330; for inputs up to 100 in magnitude the
  result is within \<open>10^-11\<close> of the exact affine value. 0 maps to 55 and 4 to 580
  horizontally, 0 maps to 350 and 9 to 20 vertically. Nothing is clamped: both functions
  are monotone (\<open>toSvgY\<close> decreasing), an input outside the viewport is mapped outside the
  plot rectangle or onto its edge, and outside it as soon as the input is \<open>2^-40\<close> or more
  beyond the viewport.
\<close>

theorem mapper_in_doubles:
  "pad_left PAD = Fin 55 \<and> pad_top PAD = Fin 20 \<and> plotW_dbl = Fin 525 \<and> plotH_dbl = Fin 330
   \<and> toSvgX_dbl (Fin x) = fadd (Fin 55) (fmul (fdiv (fsub (Fin x) (Fin 0)) (Fin 4)) (Fin 525))
   \<and> toSvgY_dbl (Fin y) =
       fadd (Fin 20) (fmul (fsub (Fin 1) (fdiv (fsub (Fin y) (Fin 0)) (Fin 9))) (Fin 330))
   \<and> (\<bar>x\<bar> \<le> 100 \<longrightarrow> near (1 / 10 ^ 11) (toSvgX_dbl (Fin x)) (55 + (x - 0) / (4 - 0) * 525))
   \<and> (\<bar>y\<bar> \<le> 100 \<longrightarrow> near (1 / 10 ^ 11) (toSvgY_dbl (Fin y)) (20 + (1 - (y - 0) / (9 - 0)) * 330))
   \<and> toSvgX_dbl (Fin 0) = Fin 55 \<and> toSvgX_dbl (Fin 4) = Fin 580
   \<and> toSvgY_dbl (Fin 0) = Fin 350 \<and> toSvgY_dbl (Fin 9) = Fin 20
   \<and> (x \<le> x' \<longrightarrow> toSvgX_dbl (Fin x) \<le> toSvgX_dbl (Fin x'))
   \<and> (y \<le> y' \<longrightarrow> toSvgY_dbl (Fin y') \<le> toSvgY_dbl (Fin y))
   \<and> (x < 0 \<longrightarrow> toSvgX_dbl (Fin x) \<le> Fin 55)
   \<and> (4 < x \<longrightarrow> Fin 580 \<le> toSvgX_dbl (Fin x))
   \<and> (y < 0 \<longrightarrow> Fin 350 \<le> toSvgY_dbl (Fin y))
   \<and> (9 < y \<longrightarrow> toSvgY_dbl (Fin y) \<le> Fin 20)
   \<and> (x \<le> - (1 / 2 ^ 40) \<longrightarrow> toSvgX_dbl (Fin x) < Fin 55)
   \<and> (4 + 1 / 2 ^ 40 \<le> x \<longrightarrow> Fin 580 < toSvgX_dbl (Fin x))
   \<and> (y \<le> - (1 / 2 ^ 40) \<longrightarrow> Fin 350 < toSvgY_dbl (Fin y))
   \<and> (9 + 1 / 2 ^ 40 \<le> y \<longrightarrow> toSvgY_dbl (Fin y) < Fin 20)"
proof -
  have pads: "pad_left PAD = Fin 55" "pad_top PAD = Fin 20" by (simp_all add: PAD_def)
  have formulas:
    "toSvgX_dbl (Fin x) = fadd (Fin 55) (fmul (fdiv (fsub (Fin x) (Fin 0)) (Fin 4)) (Fin 525))"
    "toSvgY_dbl (Fin y) =
       fadd (Fin 20) (fmul (fsub (Fin 1) (fdiv (fsub (Fin y) (Fin 0)) (Fin 9))) (Fin 330))"
    unfolding toSvgX_dbl_def toSvgY_dbl_def plotW_dbl plotH_dbl xRange_dbl yRange_dbl
    by (simp_all add: PAD_def xMin_def yMin_def)
  have nx: "near (1 / 10 ^ 11) (toSvgX_dbl (Fin x)) (55 + (x - 0) / (4 - 0) * 525)" if "\<bar>x\<bar> \<le> 100"
    using toSvgX_dbl_near [OF that] by auto
  have ny: "near (1 / 10 ^ 11) (toSvgY_dbl (Fin y)) (20 + (1 - (y - 0) / (9 - 0)) * 330)" if "\<bar>y\<bar> \<le> 100"
    using toSvgY_dbl_near [OF that] by auto
  have x_lo: "toSvgX_dbl (Fin x) \<le> Fin 55" if "x < 0"
    using toSvgX_dbl_mono [of x 0] that by (simp add: toSvgX_dbl_values)
  have x_hi: "Fin 580 \<le> toSvgX_dbl (Fin x)" if "4 < x"
    using toSvgX_dbl_mono [of 4 x] that by (simp add: toSvgX_dbl_values)
  have y_lo: "Fin 350 \<le> toSvgY_dbl (Fin y)" if "y < 0"
    using toSvgY_dbl_mono [of y 0] that by (simp add: toSvgY_dbl_values)
  have y_hi: "toSvgY_dbl (Fin y) \<le> Fin 20" if "9 < y"
    using toSvgY_dbl_mono [of 9 y] that by (simp add: toSvgY_dbl_values)
  have x_out_lo: "toSvgX_dbl (Fin x) < Fin 55" if "x \<le> - (1 / 2 ^ 40)"
  proof -
    have "toSvgX_dbl (Fin x) \<le> Fin (55 - 525 / 2 ^ 42)"
      using toSvgX_dbl_mono [OF that] by (simp only: toSvgX_dbl_values)
    moreover have "Fin (55 - 525 / 2 ^ 42) < Fin 55" by simp
    ultimately show ?thesis by (rule num_le_less_trans)
  qed
  have x_out_hi: "Fin 580 < toSvgX_dbl (Fin x)" if "4 + 1 / 2 ^ 40 \<le> x"
  proof -
    have "Fin 580 < Fin (580 + 525 / 2 ^ 42)" by simp
    moreover have "Fin (580 + 525 / 2 ^ 42) \<le> toSvgX_dbl (Fin x)"
      using toSvgX_dbl_mono [OF that] by (simp only: toSvgX_dbl_values)
    ultimately show ?thesis by (rule num_less_le_trans)
  qed
  have y_out_lo: "Fin 350 < toSvgY_dbl (Fin y)" if "y \<le> - (1 / 2 ^ 40)"
  proof -
    have "Fin 350 < Fin (6157265115546187 / 17592186044416)" by simp
    moreover have "Fin (6157265115546187 / 17592186044416) \<le> toSvgY_dbl (Fin y)"
      using toSvgY_dbl_mono [OF that] by (simp only: toSvgY_dbl_values)
    ultimately show ?thesis by (rule num_less_le_trans)
  qed
  have y_out_hi: "toSvgY_dbl (Fin y) < Fin 20" if "9 + 1 / 2 ^ 40 \<le> y"
  proof -
    have "toSvgY_dbl (Fin y) \<le> Fin (703687441775467 / 35184372088832)"
      using toSvgY_dbl_mono [OF that] by (simp only: toSvgY_dbl_values)
    moreover have "Fin (703687441775467 / 35184372088832) < Fin 20" by simp
    ultimately show ?thesis by (rule num_le_less_trans)
  qed
  show ?thesis
    by (intro conjI impI pads plotW_dbl plotH_dbl formulas nx ny toSvgX_dbl_values(1,2)
          toSvgY_dbl_values(1,2) toSvgX_dbl_mono toSvgY_dbl_mono x_lo x_hi y_lo y_hi
          x_out_lo x_out_hi y_out_lo y_out_hi)
qed

theorem mapper_in_doubles_witness:
  "\<bar>5 :: real\<bar> \<le> 100 \<and> near (1 / 10 ^ 11) (toSvgX_dbl (Fin 5)) (55 + (5 - 0) / (4 - 0) * 525)
   \<and> \<bar>- 1 :: real\<bar> \<le> 100
   \<and> near (1 / 10 ^ 11) (toSvgY_dbl (Fin (- 1))) (20 + (1 - (- 1 - 0) / (9 - 0)) * 330)
   \<and> (5 :: real) \<le> 6 \<and> toSvgX_dbl (Fin 5) \<le> toSvgX_dbl (Fin 6)
   \<and> (- 1 :: real) \<le> 10 \<and> toSvgY_dbl (Fin 10) \<le> toSvgY_dbl (Fin (- 1))
   \<and> (4 :: real) < 5 \<and> Fin 580 \<le> toSvgX_dbl (Fin 5)
   \<and> (- 1 :: real) < 0 \<and> Fin 350 \<le> toSvgY_dbl (Fin (- 1))
   \<and> (4 + 1 / 2 ^ 40 :: real) \<le> 5 \<and> Fin 580 < toSvgX_dbl (Fin 5)
   \<and> (- 1 :: real) \<le> - (1 / 2 ^ 40) \<and> Fin 350 < toSvgY_dbl (Fin (- 1))
   \<and> toSvgX_dbl (Fin (- 1)) \<le> Fin 55 \<and> toSvgX_dbl (Fin (- 1)) < Fin 55
   \<and> (9 :: real) < 10 \<and> toSvgY_dbl (Fin 10) \<le> Fin 20
   \<and> (9 + 1 / 2 ^ 40 :: real) \<le> 10 \<and> toSvgY_dbl (Fin 10) < Fin 20"
proof -
  have hyps: "\<bar>5 :: real\<bar> \<le> 100" "\<bar>- 1 :: real\<bar> \<le> 100" "(5 :: real) \<le> 6" "(- 1 :: real) \<le> 10"
    "(4 :: real) < 5" "(- 1 :: real) < 0" "(4 + 1 / 2 ^ 40 :: real) \<le> 5" "(- 1 :: real) \<le> - (1 / 2 ^ 40)"
    "(9 :: real) < 10" "(9 + 1 / 2 ^ 40 :: real) \<le> 10"
    by simp_all
  from mapper_in_doubles [of 5 "- 1" 6 10] mapper_in_doubles [of "- 1" 10 0 11] hyps
  show ?thesis by blast
qed

section \<open>Reactive updates\<close>

lemma reactive_result:
  "snd (reactive t get put changed rhs ds) =
     (if set (mentions t) \<inter> fst ds = {} then snd ds else put (rhs (snd ds)) (snd ds))"
  "fst (reactive t get put changed rhs ds) =
     (if set (mentions t) \<inter> fst ds \<noteq> {} \<and> changed (get (snd ds)) (rhs (snd ds))
      then insert t (fst ds) else fst ds)"
  by (simp_all add: reactive_def Let_def)

text \<open>
  One declaration keeps the invariant of the update, provided it comes after the
  declarations already passed, it makes its own target fresh, and its target is read only
  by the declarations that mention it.
\<close>

lemma reactive_inv:
  assumes inv: "update_inv pf finished ds"
    and new: "t \<notin> finished"
    and topo: "\<forall>i\<in>finished. t \<notin> set (mentions i)"
    and a: "\<And>s. fresh pf t (put (rhs s) s)"
    and b: "\<And>i x s. i \<noteq> t \<Longrightarrow> t \<notin> set (mentions i) \<Longrightarrow> fresh pf i (put x s) = fresh pf i s"
    and c: "\<And>s. put (get s) s = s"
    and ch: "\<And>x y. x \<noteq> y \<Longrightarrow> changed x y"
  shows "update_inv pf (insert t finished) (reactive t get put changed rhs ds)"
proof (cases "set (mentions t) \<inter> fst ds = {}")
  case True
  then have same: "reactive t get put changed rhs ds = ds"
    by (simp add: reactive_def Let_def)
  from inv True have "fresh pf t (snd ds)"
    by (auto simp: update_inv_def)
  with inv show ?thesis
    by (simp add: same update_inv_def)
next
  case False
  define s where "s = snd ds"
  define D where "D = fst ds"
  show ?thesis
  proof (cases "changed (get s) (rhs s)")
    case True
    with False have res: "reactive t get put changed rhs ds = (insert t D, put (rhs s) s)"
      by (simp add: reactive_def Let_def s_def D_def)
    have "fresh pf i (put (rhs s) s)" if "i \<in> finished" for i
      using that inv new topo b [of i "rhs s" s] by (auto simp: update_inv_def s_def)
    moreover have "fresh pf i (put (rhs s) s) \<or> set (mentions i) \<inter> insert t D \<noteq> {}" for i
    proof (cases "i = t \<or> t \<in> set (mentions i)")
      case True
      then show ?thesis using a [of s] by auto
    next
      case False
      then have "fresh pf i (put (rhs s) s) = fresh pf i s" using b by simp
      moreover have "fresh pf i s \<or> set (mentions i) \<inter> D \<noteq> {}"
        using inv by (simp add: update_inv_def s_def D_def)
      ultimately show ?thesis by auto
    qed
    ultimately show ?thesis using a [of s] by (simp add: res update_inv_def)
  next
    case unchanged: False
    then have "get s = rhs s" using ch by blast
    then have "put (rhs s) s = s" using c [of s] by simp
    with False unchanged have res: "reactive t get put changed rhs ds = ds"
      by (simp add: reactive_def Let_def s_def D_def)
    have "fresh pf t s" using a [of s] \<open>put (rhs s) s = s\<close> by simp
    with inv show ?thesis by (simp add: res update_inv_def s_def)
  qed
qed

lemma fresh_other:
  "i \<noteq> Slope_sek \<Longrightarrow> Slope_sek \<notin> set (mentions i) \<Longrightarrow> fresh pf i (s\<lparr>slope_sek := n\<rparr>) = fresh pf i s"
  "i \<noteq> Slope_tan \<Longrightarrow> Slope_tan \<notin> set (mentions i) \<Longrightarrow> fresh pf i (s\<lparr>slope_tan := n\<rparr>) = fresh pf i s"
  "i \<noteq> SlopeDisplay \<Longrightarrow> fresh pf i (s\<lparr>slopeDisplay := str\<rparr>) = fresh pf i s"
  "i \<noteq> ErrorDisplay \<Longrightarrow> fresh pf i (s\<lparr>errorDisplay := str\<rparr>) = fresh pf i s"
  "i \<noteq> FuncPoints \<Longrightarrow> fresh pf i (s\<lparr>funcPoints := str\<rparr>) = fresh pf i s"
  "i \<noteq> SekantePoints \<Longrightarrow> fresh pf i (s\<lparr>sekantePoints := str\<rparr>) = fresh pf i s"
  "i \<noteq> TangentePoints \<Longrightarrow> fresh pf i (s\<lparr>tangentePoints := str\<rparr>) = fresh pf i s"
  "i \<noteq> Px0 \<Longrightarrow> fresh pf i (s\<lparr>px0 := pt\<rparr>) = fresh pf i s"
  "i \<noteq> Px1 \<Longrightarrow> fresh pf i (s\<lparr>px1 := pt\<rparr>) = fresh pf i s"
  "i \<noteq> ErrorRatio \<Longrightarrow> ErrorRatio \<notin> set (mentions i) \<Longrightarrow> fresh pf i (s\<lparr>errorRatio := n\<rparr>) = fresh pf i s"
  "i \<noteq> ErrorColor \<Longrightarrow> fresh pf i (s\<lparr>errorColor := str\<rparr>) = fresh pf i s"
  by (cases i; simp)+

lemma fresh_deltaX_update:
  "DeltaX \<notin> set (mentions i) \<Longrightarrow> fresh pf i (s\<lparr>deltaX := n\<rparr>) = fresh pf i s"
  by (cases i) simp_all

lemma all_vars_complete: "i \<in> set all_vars"
  by (cases i) (simp_all add: all_vars_def)

lemma consistent_iff_fresh: "consistent pf s = (\<forall>i. fresh pf i s)"
  using all_vars_complete by (auto simp: consistent_def list_all_iff)

lemma update_fresh:
  assumes "update_inv pf {} ds"
  shows "consistent pf (snd (update pf ds))"
proof -
  have "update_inv pf
          (insert ErrorColor (insert ErrorRatio (insert Px1 (insert Px0 (insert TangentePoints
            (insert SekantePoints (insert FuncPoints (insert ErrorDisplay (insert SlopeDisplay
              (insert Slope_tan (insert Slope_sek {})))))))))))
          (update pf ds)"
    unfolding update_def declarations_def foldl_Cons foldl_Nil
    by (intro reactive_inv assms) (simp_all add: fresh_other)
  then show ?thesis
    by (simp add: update_inv_def consistent_def all_vars_def)
qed

lemma foldl_preserve:
  assumes "\<And>g x. g \<in> set gs \<Longrightarrow> P x \<Longrightarrow> P (g x)" "P x"
  shows "P (foldl (\<lambda>acc g. g acc) x gs)"
  using assms by (induction gs arbitrary: x) auto

lemma declaration_inputs:
  "g \<in> set (declarations pf) \<Longrightarrow>
     deltaX (snd (g ds)) = deltaX (snd ds) \<and> x0 (snd (g ds)) = x0 (snd ds)"
  by (auto simp: declarations_def reactive_def Let_def)

lemma update_inputs:
  "deltaX (snd (update pf ds)) = deltaX (snd ds) \<and> x0 (snd (update pf ds)) = x0 (snd ds)"
  unfolding update_def
  by (rule foldl_preserve
        [where P = "\<lambda>r. deltaX (snd r) = deltaX (snd ds) \<and> x0 (snd r) = x0 (snd ds)"])
     (simp_all add: declaration_inputs)

lemma declaration_frame:
  "g \<in> set (declarations pf) \<Longrightarrow>
     X0 \<notin> fst ds \<and> Slope_tan \<notin> fst ds \<and> frame_of (snd ds) = fr \<Longrightarrow>
     X0 \<notin> fst (g ds) \<and> Slope_tan \<notin> fst (g ds) \<and> frame_of (snd (g ds)) = fr"
  by (auto simp: declarations_def reactive_result frame_of_def split: if_splits)

lemma update_frame:
  assumes "X0 \<notin> fst ds" "Slope_tan \<notin> fst ds"
  shows "frame_of (snd (update pf ds)) = frame_of (snd ds)"
proof -
  have "X0 \<notin> fst (update pf ds) \<and> Slope_tan \<notin> fst (update pf ds)
      \<and> frame_of (snd (update pf ds)) = frame_of (snd ds)"
    unfolding update_def
    by (rule foldl_preserve
          [where P = "\<lambda>r. X0 \<notin> fst r \<and> Slope_tan \<notin> fst r \<and> frame_of (snd r) = frame_of (snd ds)"])
       (use assms declaration_frame in auto)
  then show ?thesis by simp
qed

lemma set_deltaX_frame: "frame_of (set_deltaX pf v s) = frame_of s"
  using update_frame [of "({DeltaX}, s\<lparr>deltaX := v\<rparr>)" pf]
  by (simp add: set_deltaX_def frame_of_def)

lemma set_deltaX_inputs: "deltaX (set_deltaX pf v s) = v \<and> x0 (set_deltaX pf v s) = x0 s"
  using update_inputs [of pf "({DeltaX}, s\<lparr>deltaX := v\<rparr>)"]
  by (simp add: set_deltaX_def)

lemma consistent_run_all: "consistent pf (run_all pf d a)"
  by (simp add: consistent_def all_vars_def run_all_def Let_def)

lemma consistent_eq_run_all: "consistent pf s = (s = run_all pf (deltaX s) (x0 s))"
proof
  assume "consistent pf s"
  then show "s = run_all pf (deltaX s) (x0 s)"
    by (intro state.equality) (simp_all add: consistent_def all_vars_def run_all_def Let_def)
next
  assume "s = run_all pf (deltaX s) (x0 s)"
  then show "consistent pf s" using consistent_run_all [of pf "deltaX s" "x0 s"] by simp
qed

lemma set_deltaX_consistent:
  assumes "consistent pf s"
  shows "consistent pf (set_deltaX pf v s)"
proof (cases "deltaX s = v")
  case True
  with assms show ?thesis by (simp add: set_deltaX_def)
next
  case False
  have "update_inv pf {} ({DeltaX}, s\<lparr>deltaX := v\<rparr>)"
    unfolding update_inv_def
  proof (intro conjI allI ballI)
    fix i
    show "fresh pf i (snd ({DeltaX}, s\<lparr>deltaX := v\<rparr>))
        \<or> set (mentions i) \<inter> fst ({DeltaX}, s\<lparr>deltaX := v\<rparr>) \<noteq> {}"
      using assms fresh_deltaX_update [where i = i and pf = pf and s = s and n = v]
      by (auto simp: consistent_iff_fresh)
  qed simp
  then show ?thesis
    using False update_fresh by (simp add: set_deltaX_def)
qed

lemma set_deltaX_run_all:
  assumes "consistent pf s"
  shows "set_deltaX pf v s = run_all pf v (x0 s)"
  using set_deltaX_consistent [OF assms, of v] set_deltaX_inputs [of pf v s]
  by (simp add: consistent_eq_run_all)

lemma handle_set_deltaX:
  "handle pf e s = set_deltaX pf (case e of SliderInput k \<Rightarrow> slider_value k | PresetClick p \<Rightarrow> p) s"
  by (cases e) simp_all

lemma reachable_consistent: "reachable pf s \<Longrightarrow> consistent pf s \<and> x0 s = Fin 2"
proof (induction rule: reachable.induct)
  case start
  show ?case using consistent_run_all by (simp add: init_def) (simp add: run_all_def Let_def)
next
  case (step s e)
  then show ?case
    by (simp add: handle_set_deltaX set_deltaX_consistent set_deltaX_inputs)
qed

lemma valid_event_value:
  "valid_event (SliderInput k) \<Longrightarrow> \<exists>d. slider_value k = Fin d \<and> 0.01 \<le> d \<and> d \<le> 2"
  "valid_event (PresetClick p) \<Longrightarrow> \<exists>d. p = Fin d \<and> 0.01 \<le> d \<and> d \<le> 2"
  by (auto simp: slider_value_def DX_MIN_def DX_STEP_def DX_MAX_def presets_def)

lemma reachable_range: "reachable pf s \<Longrightarrow> \<exists>d. deltaX s = Fin d \<and> 0.01 \<le> d \<and> d \<le> 2"
proof (induction rule: reachable.induct)
  case start
  show ?case by (rule exI [of _ "1.5"]) (simp add: init_def run_all_def Let_def)
next
  case (step s e)
  then show ?case
    using valid_event_value by (cases e) (simp_all add: set_deltaX_inputs)
qed


lemma reachable_run: "reachable pf s = (\<exists>es. list_all valid_event es \<and> s = run pf es)"
proof
  assume "reachable pf s"
  then show "\<exists>es. list_all valid_event es \<and> s = run pf es"
  proof (induction rule: reachable.induct)
    case start
    show ?case by (rule exI [of _ "[]"]) (simp add: run_def)
  next
    case (step s e)
    then obtain es where "list_all valid_event es" "s = run pf es" by blast
    with step.hyps(2) show ?case
      by (intro exI [of _ "es @ [e]"]) (simp add: run_def)
  qed
next
  assume "\<exists>es. list_all valid_event es \<and> s = run pf es"
  then obtain es where "list_all valid_event es" "s = run pf es" by blast
  then show "reachable pf s"
  proof (induction es arbitrary: s rule: rev_induct)
    case Nil
    then show ?case by (simp add: run_def reachable.start)
  next
    case (snoc e es)
    then have "reachable pf (run pf es)" "valid_event e" by simp_all
    then have "reachable pf (handle pf e (run pf es))" by (rule reachable.step)
    with snoc.prems(2) show ?case by (simp add: run_def)
  qed
qed

lemma reachable_example:
  "reachable pf (handle pf (PresetClick (Fin 0.5)) (init pf))"
  by (intro reachable.intros) (simp add: presets_def)

section \<open>Error colour\<close>






section \<open>Tick generator\<close>










section \<open>Preset highlighting\<close>

text \<open>
  C7: a preset button with value \<open>p\<close> is marked active exactly when
  \<open>\<bar>deltaX - p\<bar> < 0.005\<close>; with the preset 0.5, deltaX = 0.499 marks it and
  deltaX = 0.51 does not.
\<close>

theorem preset_active_iff:
  "active (Fin d) (Fin p) = (\<bar>d - p\<bar> < 0.005)
   \<and> active (Fin 0.499) (Fin 0.5) \<and> \<not> active (Fin 0.51) (Fin 0.5)"
  by (simp add: active_def minus_num_def)

theorem preset_active_iff_witness:
  "active (Fin 0.1) (Fin 0.1) = (\<bar>(0.1::real) - 0.1\<bar> < 0.005) \<and> active (Fin 0.1) (Fin 0.1)"
  using preset_active_iff [of "0.1" "0.1"] by simp

section \<open>Range of the step size\<close>

text \<open>
  C8: in every reachable state \<open>deltaX\<close> lies in \<open>[0.01, 2.0]\<close>. It starts at 1.5; the
  slider is set to min 0.01, max 2.0 and step 0.01 and delivers only values in that
  range; each of the presets 2.0, 1.0, 0.5, 0.1, 0.01 lies in it; and no reactive
  declaration assigns \<open>deltaX\<close>.
\<close>

theorem deltaX_in_range:
  "(reachable pf s \<longrightarrow>
      DX_MIN \<le> deltaX s \<and> deltaX s \<le> DX_MAX
      \<and> (\<exists>d. deltaX s = Fin d \<and> 0.01 \<le> d \<and> d \<le> 2.0))
   \<and> deltaX (init pf) = Fin 1.5
   \<and> DX_MIN = Fin 0.01 \<and> DX_MAX = Fin 2.0 \<and> DX_STEP = Fin 0.01
   \<and> (valid_event (SliderInput k) \<longrightarrow> DX_MIN \<le> slider_value k \<and> slider_value k \<le> DX_MAX)
   \<and> presets = [Fin 2.0, Fin 1.0, Fin 0.5, Fin 0.1, Fin 0.01]
   \<and> list_all (\<lambda>p. DX_MIN \<le> p \<and> p \<le> DX_MAX) presets
   \<and> deltaX (snd (update pf ds)) = deltaX (snd ds)"
proof -
  have range: "DX_MIN \<le> deltaX s \<and> deltaX s \<le> DX_MAX
      \<and> (\<exists>d. deltaX s = Fin d \<and> 0.01 \<le> d \<and> d \<le> 2.0)" if "reachable pf s"
    using reachable_range [OF that] by (auto simp: DX_MIN_def DX_MAX_def)
  have start: "deltaX (init pf) = Fin 1.5"
    by (simp add: init_def run_all_def Let_def)
  have slider: "DX_MIN \<le> slider_value k \<and> slider_value k \<le> DX_MAX"
    if "valid_event (SliderInput k)"
    using that by (simp add: slider_value_def DX_MIN_def DX_STEP_def DX_MAX_def)
  have buttons: "list_all (\<lambda>p. DX_MIN \<le> p \<and> p \<le> DX_MAX) presets"
    by (simp add: presets_def DX_MIN_def DX_MAX_def)
  show ?thesis
    using range start slider buttons update_inputs [of pf ds]
    by (simp add: DX_MIN_def DX_MAX_def DX_STEP_def presets_def)
qed

theorem deltaX_in_range_witness:
  "reachable plain_platform (handle plain_platform (PresetClick (Fin 0.5)) (init plain_platform))
   \<and> DX_MIN \<le> deltaX (handle plain_platform (PresetClick (Fin 0.5)) (init plain_platform))
   \<and> deltaX (handle plain_platform (PresetClick (Fin 0.5)) (init plain_platform)) \<le> DX_MAX
   \<and> valid_event (SliderInput 199) \<and> slider_value 199 = Fin 2 \<and> slider_value 199 \<le> DX_MAX"
proof -
  have slider: "valid_event (SliderInput 199)" "slider_value 199 = Fin 2"
    by (simp_all add: slider_value_def DX_MIN_def DX_STEP_def DX_MAX_def)
  from deltaX_in_range [of plain_platform
      "handle plain_platform (PresetClick (Fin 0.5)) (init plain_platform)" 199]
    reachable_example [of plain_platform] slider
  show ?thesis by blast
qed

section \<open>Determinism of the derived state\<close>

text \<open>
  C9: in a reachable state, assigning the same value to \<open>deltaX\<close> twice gives the state
  that assigning it once gives, and that state is the one all declarations compute from
  \<open>x0\<close> and the assigned value alone: secant and tangent slope, their displays, the three
  point sequences, both markers, error ratio and error colour.
\<close>

theorem set_deltaX_idempotent:
  assumes "reachable pf s"
  shows "set_deltaX pf v (set_deltaX pf v s) = set_deltaX pf v s
   \<and> set_deltaX pf v s = run_all pf v (x0 s)
   \<and> s = run_all pf (deltaX s) (x0 s)
   \<and> x0 s = Fin 2.0
   \<and> slope_sek (set_deltaX pf v s) = slope_sek_rhs (x0 s) v
   \<and> slope_tan (set_deltaX pf v s) = slope_tan_rhs (x0 s)
   \<and> errorDisplay (set_deltaX pf v s)
       = toFixed pf 4 (Math_abs (slope_sek_rhs (x0 s) v - slope_tan_rhs (x0 s)))
   \<and> errorColor (set_deltaX pf v s)
       = interpolateColor pf (errorRatio_rhs (slope_sek_rhs (x0 s) v) (slope_tan_rhs (x0 s)))
   \<and> px0 (set_deltaX pf v s) = px0_rhs (x0 s)
   \<and> px1 (set_deltaX pf v s) = px1_rhs (x0 s) v
   \<and> funcPoints (set_deltaX pf v s) = makeLine pf xs f
   \<and> sekantePoints (set_deltaX pf v s)
       = makeLine pf xs (\<lambda>x. f (x0 s) + slope_sek_rhs (x0 s) v * (x - x0 s))
   \<and> tangentePoints (set_deltaX pf v s)
       = makeLine pf xs (\<lambda>x. f (x0 s) + slope_tan_rhs (x0 s) * (x - x0 s))"
proof -
  have cons: "consistent pf s" and x: "x0 s = Fin 2"
    using reachable_consistent [OF assms] by simp_all
  have once: "set_deltaX pf v s = run_all pf v (x0 s)"
    by (rule set_deltaX_run_all [OF cons])
  have twice: "set_deltaX pf v (set_deltaX pf v s) = set_deltaX pf v s"
    using set_deltaX_inputs [of pf v s] by (subst (1) set_deltaX_def) simp
  have this_state: "s = run_all pf (deltaX s) (x0 s)"
    using cons by (simp add: consistent_eq_run_all)
  have fields:
    "slope_sek (set_deltaX pf v s) = slope_sek_rhs (x0 s) v"
    "slope_tan (set_deltaX pf v s) = slope_tan_rhs (x0 s)"
    "errorDisplay (set_deltaX pf v s)
       = toFixed pf 4 (Math_abs (slope_sek_rhs (x0 s) v - slope_tan_rhs (x0 s)))"
    "errorColor (set_deltaX pf v s)
       = interpolateColor pf (errorRatio_rhs (slope_sek_rhs (x0 s) v) (slope_tan_rhs (x0 s)))"
    "px0 (set_deltaX pf v s) = px0_rhs (x0 s)"
    "px1 (set_deltaX pf v s) = px1_rhs (x0 s) v"
    "funcPoints (set_deltaX pf v s) = makeLine pf xs f"
    "sekantePoints (set_deltaX pf v s)
       = makeLine pf xs (\<lambda>x. f (x0 s) + slope_sek_rhs (x0 s) v * (x - x0 s))"
    "tangentePoints (set_deltaX pf v s)
       = makeLine pf xs (\<lambda>x. f (x0 s) + slope_tan_rhs (x0 s) * (x - x0 s))"
    unfolding once
    by (simp_all add: run_all_def Let_def errorDisplay_rhs_def errorColor_rhs_def
          funcPoints_rhs_def sekantePoints_rhs_def tangentePoints_rhs_def)
  have x': "x0 s = Fin 2.0" using x by simp
  show ?thesis
    by (intro conjI twice once this_state x' fields)
qed

theorem set_deltaX_idempotent_witness:
  "reachable plain_platform (init plain_platform)
   \<and> set_deltaX plain_platform (Fin 1) (set_deltaX plain_platform (Fin 1) (init plain_platform))
       = set_deltaX plain_platform (Fin 1) (init plain_platform)
   \<and> slope_sek (set_deltaX plain_platform (Fin 1) (init plain_platform)) = Fin 3
   \<and> px1 (set_deltaX plain_platform (Fin 1) (init plain_platform)) = \<lparr> pt_x = Fin (448 + 3 / 4), pt_y = Fin 130 \<rparr>"
proof -
  have x: "x0 (init plain_platform) = Fin 2"
    by (simp add: init_def run_all_def Let_def)
  note t = set_deltaX_idempotent [OF reachable.start, of plain_platform "Fin 1"]
  from t have twice:
    "set_deltaX plain_platform (Fin 1) (set_deltaX plain_platform (Fin 1) (init plain_platform))
       = set_deltaX plain_platform (Fin 1) (init plain_platform)"
    by blast
  from t have "slope_sek (set_deltaX plain_platform (Fin 1) (init plain_platform))
      = slope_sek_rhs (x0 (init plain_platform)) (Fin 1)"
    by blast
  then have sek: "slope_sek (set_deltaX plain_platform (Fin 1) (init plain_platform)) = Fin 3"
    by (simp add: x slope_sek_closed)
  from t have "px1 (set_deltaX plain_platform (Fin 1) (init plain_platform))
      = px1_rhs (x0 (init plain_platform)) (Fin 1)"
    by blast
  then have pt: "px1 (set_deltaX plain_platform (Fin 1) (init plain_platform))
      = \<lparr> pt_x = Fin (448 + 3 / 4), pt_y = Fin 130 \<rparr>"
    by (simp add: x px1_rhs_def f_Fin toSvgX_def toSvgY_def viewport_defs)
  show ?thesis
    by (intro conjI reachable.start twice sek pt)
qed

section \<open>What a change of the step size leaves alone\<close>

text \<open>
  C10: an assignment to \<open>deltaX\<close>, by the slider or by a preset, leaves \<open>funcPoints\<close>,
  \<open>slope_tan\<close>, \<open>tangentePoints\<close> and \<open>px0\<close> as they were; in a reachable state
  each of them is a function of \<open>x0\<close> and constants only.
\<close>

theorem set_deltaX_leaves_frame:
  "funcPoints (set_deltaX pf v s) = funcPoints s
   \<and> slope_tan (set_deltaX pf v s) = slope_tan s
   \<and> tangentePoints (set_deltaX pf v s) = tangentePoints s
   \<and> px0 (set_deltaX pf v s) = px0 s
   \<and> funcPoints (handle pf e s) = funcPoints s
   \<and> slope_tan (handle pf e s) = slope_tan s
   \<and> tangentePoints (handle pf e s) = tangentePoints s
   \<and> px0 (handle pf e s) = px0 s
   \<and> (reachable pf s \<longrightarrow>
        funcPoints s = makeLine pf xs f
        \<and> slope_tan s = df (x0 s)
        \<and> tangentePoints s = makeLine pf xs (\<lambda>x. f (x0 s) + slope_tan s * (x - x0 s))
        \<and> px0 s = \<lparr> pt_x = toSvgX (x0 s), pt_y = toSvgY (f (x0 s)) \<rparr>)"
proof -
  have fresh: "funcPoints s = makeLine pf xs f
        \<and> slope_tan s = df (x0 s)
        \<and> tangentePoints s = makeLine pf xs (\<lambda>x. f (x0 s) + slope_tan s * (x - x0 s))
        \<and> px0 s = \<lparr> pt_x = toSvgX (x0 s), pt_y = toSvgY (f (x0 s)) \<rparr>" if "reachable pf s"
    using reachable_consistent [OF that]
    by (simp add: consistent_def all_vars_def funcPoints_rhs_def slope_tan_rhs_def
          tangentePoints_rhs_def px0_rhs_def)
  show ?thesis
    using set_deltaX_frame [of pf v s] fresh
    by (simp add: frame_of_def handle_set_deltaX)
       (use set_deltaX_frame [of pf _ s] in \<open>simp add: frame_of_def\<close>)
qed

theorem set_deltaX_leaves_frame_witness:
  "reachable plain_platform (init plain_platform)
   \<and> slope_tan (init plain_platform) = Fin 2
   \<and> slope_tan (handle plain_platform (SliderInput 0) (init plain_platform)) = Fin 2
   \<and> px0 (handle plain_platform (SliderInput 0) (init plain_platform))
       = \<lparr> pt_x = Fin (317 + 1 / 2), pt_y = Fin 240 \<rparr>"
proof -
  have x: "x0 (init plain_platform) = Fin 2"
    by (simp add: init_def run_all_def Let_def)
  from set_deltaX_leaves_frame
    [of plain_platform "Fin 0" "init plain_platform" "SliderInput 0"]
  show ?thesis
    by (simp add: reachable.start x df_Fin f_Fin toSvgX_def toSvgY_def viewport_defs)
qed

end
